theory Spec2Isabelle
  imports Main "HOL-Library.Multiset"
begin

section \<open>Calendar dates (the part of \<^verbatim>\<open>datetime.date\<close> that rsf.py uses)\<close>

text \<open>
  A \<^verbatim>\<open>datetime.date\<close> is a triple of year, month and day. Python compares two dates as
  the tuples \<^verbatim>\<open>(year, month, day)\<close>, that is lexicographically.
\<close>

datatype date = Date (year: int) (month: int) (day: int)

instantiation date :: linorder
begin

definition less_eq_date :: "date \<Rightarrow> date \<Rightarrow> bool" where
  "less_eq_date a b \<longleftrightarrow>
     year a < year b \<or>
     (year a = year b \<and> (month a < month b \<or> (month a = month b \<and> day a \<le> day b)))"

definition less_date :: "date \<Rightarrow> date \<Rightarrow> bool" where
  "less_date a b \<longleftrightarrow>
     year a < year b \<or>
     (year a = year b \<and> (month a < month b \<or> (month a = month b \<and> day a < day b)))"

instance
proof
  fix x y z :: date
  show "(x < y) = (x \<le> y \<and> \<not> y \<le> x)"
    by (auto simp: less_eq_date_def less_date_def)
  show "x \<le> x"
    by (simp add: less_eq_date_def)
  show "x \<le> y \<Longrightarrow> y \<le> z \<Longrightarrow> x \<le> z"
    by (auto simp: less_eq_date_def)
  show "x \<le> y \<Longrightarrow> y \<le> x \<Longrightarrow> x = y"
    by (cases x; cases y) (auto simp: less_eq_date_def)
  show "x \<le> y \<or> y \<le> x"
    by (auto simp: less_eq_date_def)
qed

end

text \<open>
  Day arithmetic goes through the proleptic Gregorian ordinal, as in CPython:
  \<^verbatim>\<open>_is_leap\<close>, \<^verbatim>\<open>_days_before_year\<close>, \<^verbatim>\<open>_days_in_month\<close>, \<^verbatim>\<open>_days_before_month\<close>,
  \<^verbatim>\<open>_ymd2ord\<close> and \<^verbatim>\<open>_ord2ymd\<close>.
\<close>

definition is_leap :: "int \<Rightarrow> bool" where
  "is_leap y \<longleftrightarrow> y mod 4 = 0 \<and> (y mod 100 \<noteq> 0 \<or> y mod 400 = 0)"

definition days_before_year :: "int \<Rightarrow> int" where
  "days_before_year y = (let p = y - 1 in p * 365 + p div 4 - p div 100 + p div 400)"

definition DAYS_IN_MONTH :: "int list" where
  "DAYS_IN_MONTH = [-1, 31, 28, 31, 30, 31, 30, 31, 31, 30, 31, 30, 31]"

definition DAYS_BEFORE_MONTH :: "int list" where
  "DAYS_BEFORE_MONTH = [-1, 0, 31, 59, 90, 120, 151, 181, 212, 243, 273, 304, 334]"

definition days_in_month :: "int \<Rightarrow> int \<Rightarrow> int" where
  "days_in_month y m = (if m = 2 \<and> is_leap y then 29 else DAYS_IN_MONTH ! nat m)"

definition days_before_month :: "int \<Rightarrow> int \<Rightarrow> int" where
  "days_before_month y m = DAYS_BEFORE_MONTH ! nat m + (if m > 2 \<and> is_leap y then 1 else 0)"

definition toordinal :: "date \<Rightarrow> int" where
  "toordinal d = days_before_year (year d) + days_before_month (year d) (month d) + day d"

definition MAXORDINAL :: int where
  "MAXORDINAL = 3652059"

definition fromordinal :: "int \<Rightarrow> date" where
  "fromordinal ord =
     (let n = ord - 1;
          n400 = n div 146097; n = n mod 146097;
          y = n400 * 400 + 1;
          n100 = n div 36524; n = n mod 36524;
          n4 = n div 1461; n = n mod 1461;
          n1 = n div 365; n = n mod 365;
          y = y + n100 * 100 + n4 * 4 + n1
      in if n1 = 4 \<or> n100 = 4 then Date (y - 1) 12 31
         else
           let leapyear = (n1 = 3 \<and> (n4 \<noteq> 24 \<or> n100 = 3));
               m = (n + 50) div 32;
               preceding = DAYS_BEFORE_MONTH ! nat m + (if m > 2 \<and> leapyear then 1 else 0);
               m' = (if preceding > n then m - 1 else m);
               preceding' =
                 (if preceding > n
                  then preceding - (DAYS_IN_MONTH ! nat m' + (if m' = 2 \<and> leapyear then 1 else 0))
                  else preceding)
           in Date y m' (n - preceding' + 1))"

section \<open>Strings\<close>

text \<open>
  A Python \<^verbatim>\<open>str\<close> is a sequence of Unicode code points, and a line of a file opened in
  text mode is a \<^verbatim>\<open>str\<close>. A code point is an integer (from 0 to 0x10FFFF); \<open>cp c\<close> is the
  code point of a character \<open>c\<close> written in this theory and \<open>str s\<close> the string of a
  literal \<open>s\<close>.
\<close>

type_synonym str = "int list"

definition cp :: "char \<Rightarrow> int" where
  "cp c = of_char c"

definition str :: "string \<Rightarrow> str" where
  "str s = map cp s"

section \<open>Exceptions\<close>

text \<open>
  \<^verbatim>\<open>DueDate\<close> is a dataclass with the fields \<^verbatim>\<open>date\<close> and \<^verbatim>\<open>completed\<close>.
\<close>

record DueDate =
  date :: date
  completed :: bool

text \<open>
  The three exception classes of rsf.py derive from \<^verbatim>\<open>RsfException\<close>;
  \<^verbatim>\<open>NoDueDateFound\<close> carries the range as a tuple and the dateblock,
  \<^verbatim>\<open>StringParsingError\<close> the string. The other exceptions are the ones that the
  library calls of rsf.py raise.
\<close>

datatype RsfException =
    DateblockNotFound
  | NoDueDateFound "date \<times> date" "DueDate list"
  | StringParsingError str

datatype py_exception =
    Rsf RsfException
  | AttributeError
  | ValueError
  | OverflowError
  | TypeError
  | FileNotFoundError

section \<open>DueDate: comparison and sorting\<close>

text \<open>
  \<^verbatim>\<open>@dataclass(order=True)\<close> generates \<^verbatim>\<open>__eq__\<close> and \<^verbatim>\<open>__lt__\<close> that compare the
  tuples of the fields declared with \<^verbatim>\<open>compare=True\<close>: here the one-element tuple
  \<^verbatim>\<open>(self.date,)\<close>.
\<close>

definition DueDate_eq :: "DueDate \<Rightarrow> DueDate \<Rightarrow> bool" where
  "DueDate_eq a b \<longleftrightarrow> date a = date b"

definition DueDate_lt :: "DueDate \<Rightarrow> DueDate \<Rightarrow> bool" where
  "DueDate_lt a b \<longleftrightarrow> date a < date b"

text \<open>
  \<^verbatim>\<open>sorted\<close> returns a new list, compares with \<^verbatim>\<open>__lt__\<close> only and is stable. It is
  modelled by the stable insertion sort over the given \<^verbatim>\<open>lt\<close>: an element is placed
  after the elements that are smaller and before the first that is not.
\<close>

fun insort_lt :: "('a \<Rightarrow> 'a \<Rightarrow> bool) \<Rightarrow> 'a \<Rightarrow> 'a list \<Rightarrow> 'a list" where
  "insort_lt lt x [] = [x]"
| "insort_lt lt x (y # ys) = (if lt y x then y # insort_lt lt x ys else x # y # ys)"

definition sorted_py :: "('a \<Rightarrow> 'a \<Rightarrow> bool) \<Rightarrow> 'a list \<Rightarrow> 'a list" where
  "sorted_py lt xs = foldr (insort_lt lt) xs []"

section \<open>Limiting the stream\<close>

text \<open>
  \<^verbatim>\<open>itertools.compress(data, selectors)\<close> yields the items of \<^verbatim>\<open>data\<close> whose selector is
  true and stops when either is exhausted. \<^verbatim>\<open>itertools.repeat(x, n)\<close> yields \<^verbatim>\<open>x\<close>
  \<^verbatim>\<open>n\<close> times (never, when \<^verbatim>\<open>n\<close> is not positive); CPython converts \<^verbatim>\<open>n\<close> to a
  \<^verbatim>\<open>Py_ssize_t\<close> and raises \<^verbatim>\<open>OverflowError\<close>, when the object is made, for an \<^verbatim>\<open>n\<close> above
  \<^verbatim>\<open>sys.maxsize\<close> or below \<^verbatim>\<open>-sys.maxsize - 1\<close>. \<^verbatim>\<open>sys.maxsize\<close> is the one of a 64-bit
  build.
\<close>

fun compress :: "'a list \<Rightarrow> bool list \<Rightarrow> 'a list" where
  "compress (d # ds) (s # ss) = (if s then d # compress ds ss else compress ds ss)"
| "compress _ _ = []"

definition maxsize :: int where
  "maxsize = 2 ^ 63 - 1"

definition repeat :: "'a \<Rightarrow> int \<Rightarrow> py_exception + 'a list" where
  "repeat x n =
     (if n < - maxsize - 1 \<or> maxsize < n then Inl OverflowError
      else Inr (replicate (nat n) x))"

definition limit_stream :: "'a list \<Rightarrow> int \<Rightarrow> py_exception + 'a list" where
  "limit_stream stream limit =
     (if limit \<le> 0 then Inr stream
      else (case repeat True limit of
              Inl e \<Rightarrow> Inl e
            | Inr selectors \<Rightarrow> Inr (compress stream selectors)))"

section \<open>Regular expressions\<close>

text \<open>
  Both patterns are \<^verbatim>\<open>str\<close> patterns, so their classes are the Unicode ones. \<^verbatim>\<open>\s\<close>
  matches the code points for which \<^verbatim>\<open>str.isspace\<close> is true:
\<close>

definition WHITESPACE :: "int list" where
  "WHITESPACE =
     [0x0009, 0x000A, 0x000B, 0x000C, 0x000D, 0x001C, 0x001D, 0x001E,
      0x001F, 0x0020, 0x0085, 0x00A0, 0x1680, 0x2000, 0x2001, 0x2002,
      0x2003, 0x2004, 0x2005, 0x2006, 0x2007, 0x2008, 0x2009, 0x200A,
      0x2028, 0x2029, 0x202F, 0x205F, 0x3000]"

definition is_space :: "int \<Rightarrow> bool" where
  "is_space c \<longleftrightarrow> c \<in> set WHITESPACE"

text \<open>
  \<^verbatim>\<open>\d\<close> matches the decimal digits of Unicode (the category Nd), which come in runs of
  ten, from the digit zero to the digit nine of a script. These are the zeros of
  Unicode 14.0, the version of CPython 3.11; the first run is the ASCII digits, the second
  the Arabic-Indic ones.
\<close>

definition DECIMAL_ZEROS :: "int list" where
  "DECIMAL_ZEROS =
     [0x0030, 0x0660, 0x06F0, 0x07C0, 0x0966, 0x09E6, 0x0A66, 0x0AE6,
      0x0B66, 0x0BE6, 0x0C66, 0x0CE6, 0x0D66, 0x0DE6, 0x0E50, 0x0ED0,
      0x0F20, 0x1040, 0x1090, 0x17E0, 0x1810, 0x1946, 0x19D0, 0x1A80,
      0x1A90, 0x1B50, 0x1BB0, 0x1C40, 0x1C50, 0xA620, 0xA8D0, 0xA900,
      0xA9D0, 0xA9F0, 0xAA50, 0xABF0, 0xFF10, 0x104A0, 0x10D30, 0x11066,
      0x110F0, 0x11136, 0x111D0, 0x112F0, 0x11450, 0x114D0, 0x11650, 0x116C0,
      0x11730, 0x118E0, 0x11950, 0x11C50, 0x11D50, 0x11DA0, 0x16A60, 0x16AC0,
      0x16B50, 0x1D7CE, 0x1D7D8, 0x1D7E2, 0x1D7EC, 0x1D7F6, 0x1E140, 0x1E2F0,
      0x1E950, 0x1FBF0]"

definition is_digit :: "int \<Rightarrow> bool" where
  "is_digit c \<longleftrightarrow> list_ex (\<lambda>z. z \<le> c \<and> c \<le> z + 9) DECIMAL_ZEROS"

definition is_ascii_digit :: "int \<Rightarrow> bool" where
  "is_ascii_digit c \<longleftrightarrow> cp CHR ''0'' \<le> c \<and> c \<le> cp CHR ''9''"

text \<open>
  With \<^verbatim>\<open>re.IGNORECASE\<close>, a literal that is a cased letter matches the code points whose
  lower case is the lower case of the literal or one of the code points that \<^verbatim>\<open>re\<close> lists
  as equivalent to it; a literal that is not cased matches itself. For an ASCII literal
  these are the letter in both cases, and beside them the dotted capital I (U+0130) and
  the dotless i (U+0131) for \<^verbatim>\<open>i\<close>, the Kelvin sign (U+212A) for \<^verbatim>\<open>k\<close>, and the long s
  (U+017F) for \<^verbatim>\<open>s\<close>. The literals of the patterns of rsf.py are ASCII.
\<close>

definition ignorecase_class :: "int \<Rightarrow> int list" where
  "ignorecase_class c =
     (let lo = (if cp CHR ''A'' \<le> c \<and> c \<le> cp CHR ''Z'' then c + 32 else c)
      in if cp CHR ''a'' \<le> lo \<and> lo \<le> cp CHR ''z''
         then [lo, lo - 32] @
              (if lo = cp CHR ''i'' then [0x0130, 0x0131]
               else if lo = cp CHR ''k'' then [0x212A]
               else if lo = cp CHR ''s'' then [0x017F]
               else [])
         else [c])"

definition newline :: int where
  "newline = cp CHR 0x0A"

text \<open>
  The matcher is a backtracking one, as Python's: a pattern maps a state (the groups
  captured so far, the position, the rest of the text) to the list of the states in which
  it can end, in the order in which Python tries them (greedy quantifiers try the longest
  first, an alternation its left branch first). \<^verbatim>\<open>pattern.match(line)\<close> is the first
  of them, and \<^verbatim>\<open>None\<close> when there is none.
\<close>

type_synonym mstate = "(string \<times> str) list \<times> nat \<times> str"

type_synonym rx = "mstate \<Rightarrow> mstate list"

definition rx_class :: "(int \<Rightarrow> bool) \<Rightarrow> rx" where
  "rx_class P = (\<lambda>(g, p, s). case s of [] \<Rightarrow> [] | c # cs \<Rightarrow> if P c then [(g, Suc p, cs)] else [])"

definition rx_lit :: "int \<Rightarrow> rx" where
  "rx_lit c = rx_class (\<lambda>x. x = c)"

definition rx_lit_ci :: "int \<Rightarrow> rx" where
  "rx_lit_ci c = rx_class (\<lambda>x. x \<in> set (ignorecase_class c))"

definition rx_empty :: rx where
  "rx_empty = (\<lambda>st. [st])"

definition rx_seq :: "rx \<Rightarrow> rx \<Rightarrow> rx" where
  "rx_seq r1 r2 = (\<lambda>st. concat (map r2 (r1 st)))"

definition rx_alt :: "rx \<Rightarrow> rx \<Rightarrow> rx" where
  "rx_alt r1 r2 = (\<lambda>st. r1 st @ r2 st)"

definition rx_opt :: "rx \<Rightarrow> rx" where
  "rx_opt r = (\<lambda>st. r st @ [st])"

definition rx_star_class :: "(int \<Rightarrow> bool) \<Rightarrow> rx" where
  "rx_star_class P =
     (\<lambda>(g, p, s). map (\<lambda>n. (g, p + n, drop n s)) (rev [0 ..< Suc (length (takeWhile P s))]))"

fun rx_times :: "nat \<Rightarrow> rx \<Rightarrow> rx" where
  "rx_times 0 r = rx_empty"
| "rx_times (Suc n) r = rx_seq r (rx_times n r)"

definition rx_bol :: rx where
  "rx_bol = (\<lambda>(g, p, s). if p = 0 then [(g, p, s)] else [])"

definition rx_group :: "string \<Rightarrow> rx \<Rightarrow> rx" where
  "rx_group name r =
     (\<lambda>(g, p, s). map (\<lambda>(g', p', s'). ((name, take (p' - p) s) # g', p', s')) (r (g, p, s)))"

record match =
  groupdict :: "(string \<times> str) list"
  whole :: str

definition re_match :: "rx \<Rightarrow> str \<Rightarrow> match option" where
  "re_match r s =
     (case r ([], 0, s) of
        [] \<Rightarrow> None
      | (g, p, _) # _ \<Rightarrow> Some \<lparr>groupdict = g, whole = take p s\<rparr>)"

text \<open>\<^verbatim>\<open>m.group(name)\<close>: \<^verbatim>\<open>None\<close> for a group that took no part in the match.\<close>

definition group :: "match \<Rightarrow> string \<Rightarrow> str option" where
  "group m name = map_of (groupdict m) name"

text \<open>
  \<^verbatim>\<open>_START_PATTERN = re.compile(r'rsf:\s*\n?', re.IGNORECASE)\<close> and
  \<^verbatim>\<open>_DATE_PATTERN = re.compile(r'^[-*]\s*(?P<completed>x|X)?\s*(?P<date>\d{4}-\d{2}-\d{2})\s*')\<close>
\<close>

definition START_PATTERN :: rx where
  "START_PATTERN =
     rx_seq (rx_lit_ci (cp CHR ''r'')) (rx_seq (rx_lit_ci (cp CHR ''s'')) (rx_seq (rx_lit_ci (cp CHR ''f''))
       (rx_seq (rx_lit_ci (cp CHR '':''))
         (rx_seq (rx_star_class is_space) (rx_opt (rx_lit newline))))))"

definition DATE_TOKEN :: rx where
  "DATE_TOKEN =
     rx_seq (rx_times 4 (rx_class is_digit)) (rx_seq (rx_lit (cp CHR ''-''))
       (rx_seq (rx_times 2 (rx_class is_digit)) (rx_seq (rx_lit (cp CHR ''-''))
         (rx_times 2 (rx_class is_digit)))))"

definition DATE_PATTERN :: rx where
  "DATE_PATTERN =
     rx_seq rx_bol (rx_seq (rx_class (\<lambda>c. c = cp CHR ''-'' \<or> c = cp CHR ''*''))
       (rx_seq (rx_star_class is_space)
         (rx_seq (rx_opt (rx_group ''completed'' (rx_alt (rx_lit (cp CHR ''x'')) (rx_lit (cp CHR ''X'')))))
           (rx_seq (rx_star_class is_space)
             (rx_seq (rx_group ''date'' DATE_TOKEN) (rx_star_class is_space))))))"

definition isnot_start_pattern_match :: "str \<Rightarrow> bool" where
  "isnot_start_pattern_match line \<longleftrightarrow> re_match START_PATTERN line = None"

definition is_date_pattern_match :: "str \<Rightarrow> bool" where
  "is_date_pattern_match line \<longleftrightarrow> re_match DATE_PATTERN line \<noteq> None"

section \<open>Finding the dateblock\<close>

text \<open>
  \<^verbatim>\<open>_droptake\<close>: \<^verbatim>\<open>itertools.dropwhile\<close>, then \<^verbatim>\<open>islice(_, 1, None)\<close>, which skips one
  item when there is one, then \<^verbatim>\<open>itertools.takewhile\<close>.
\<close>

definition droptake :: "('a \<Rightarrow> bool) \<Rightarrow> ('a \<Rightarrow> bool) \<Rightarrow> 'a list \<Rightarrow> 'a list" where
  "droptake drop_pred take_pred iterable =
     (let dropped = dropWhile drop_pred iterable;
          drop_skipped = drop 1 dropped;
          taken = takeWhile take_pred drop_skipped
      in taken)"

text \<open>\<^verbatim>\<open>str.strip(chars)\<close> removes the characters of \<^verbatim>\<open>chars\<close> at both ends.\<close>

definition strip :: "str \<Rightarrow> str \<Rightarrow> str" where
  "strip chars s =
     rev (dropWhile (\<lambda>c. c \<in> set chars) (rev (dropWhile (\<lambda>c. c \<in> set chars) s)))"

definition strip_trailing_newline :: "str \<Rightarrow> str" where
  "strip_trailing_newline string = strip [newline] string"

definition find_dateblock :: "str list \<Rightarrow> py_exception + str list" where
  "find_dateblock stream =
     (let dateblock = droptake isnot_start_pattern_match is_date_pattern_match stream
      in if length dateblock = 0 then Inl (Rsf DateblockNotFound)
         else Inr (map strip_trailing_newline dateblock))"

section \<open>Parsing and printing dates\<close>

text \<open>
  \<^verbatim>\<open>date(year, month, day)\<close> checks its fields and raises \<^verbatim>\<open>ValueError\<close> for a year
  outside 1 to 9999, a month outside 1 to 12, or a day that the month does not have.
\<close>

definition date_new :: "int \<Rightarrow> int \<Rightarrow> int \<Rightarrow> py_exception + date" where
  "date_new y m d =
     (if \<not> (1 \<le> y \<and> y \<le> 9999) then Inl ValueError
      else if \<not> (1 \<le> m \<and> m \<le> 12) then Inl ValueError
      else if \<not> (1 \<le> d \<and> d \<le> days_in_month y m) then Inl ValueError
      else Inr (Date y m d))"

definition digit_val :: "int \<Rightarrow> int" where
  "digit_val c = c - cp CHR ''0''"

definition parse_int :: "str \<Rightarrow> int" where
  "parse_int s = foldl (\<lambda>a c. a * 10 + digit_val c) 0 s"

text \<open>
  \<^verbatim>\<open>date.fromisoformat\<close>, on the strings that \<^verbatim>\<open>from_datestr\<close> gives it: ten code points,
  which are four digits, a hyphen, two digits, a hyphen and two digits, the digits being
  those of \<^verbatim>\<open>\d\<close>. CPython reads the UTF-8 encoding of the string and takes ASCII digits
  only: a string of this form is a date when its digits are ASCII and the fields make a
  date, and \<^verbatim>\<open>ValueError\<close> is raised otherwise (with a digit that is not ASCII the encoding
  is longer than ten bytes, which no version accepts). On strings of another form the
  versions of Python differ (from 3.11 on, \<^verbatim>\<open>20220310\<close> and \<^verbatim>\<open>2022-W10-4\<close> are dates); they
  are answered here with \<^verbatim>\<open>ValueError\<close>, as before 3.11, and \<^verbatim>\<open>from_datestr\<close> never passes
  one (lemma \<open>from_datestr_passes_date_token\<close>).
\<close>

fun fromisoformat :: "str \<Rightarrow> py_exception + date" where
  "fromisoformat [y1, y2, y3, y4, h1, m1, m2, h2, d1, d2] =
     (if list_all is_ascii_digit [y1, y2, y3, y4, m1, m2, d1, d2] \<and>
         h1 = cp CHR ''-'' \<and> h2 = cp CHR ''-''
      then date_new (parse_int [y1, y2, y3, y4]) (parse_int [m1, m2]) (parse_int [d1, d2])
      else Inl ValueError)"
| "fromisoformat _ = Inl ValueError"






section \<open>DueDate.from_datestr\<close>

text \<open>
  \<^verbatim>\<open>m\<close> is \<^verbatim>\<open>None\<close> when the pattern does not match, and \<^verbatim>\<open>m.group\<close> then raises
  \<^verbatim>\<open>AttributeError\<close>. A group is true when it took part in the match and is not empty.
\<close>

definition truthy :: "str option \<Rightarrow> bool" where
  "truthy g \<longleftrightarrow> (case g of None \<Rightarrow> False | Some s \<Rightarrow> s \<noteq> [])"

definition from_datestr :: "str \<Rightarrow> py_exception + DueDate" where
  "from_datestr datestr =
     (case re_match DATE_PATTERN datestr of
        None \<Rightarrow> Inl AttributeError
      | Some m \<Rightarrow>
          let completed_v = (if truthy (group m ''completed'') then True else False)
          in if truthy (group m ''date'')
             then (case fromisoformat (the (group m ''date'')) of
                     Inl e \<Rightarrow> Inl e
                   | Inr date_v \<Rightarrow> Inr \<lparr>date = date_v, completed = completed_v\<rparr>)
             else Inl (Rsf (StringParsingError (whole m))))"


section \<open>The date range and the due date\<close>

record DateRange =
  earliest :: date
  latest :: date

definition contains :: "DateRange \<Rightarrow> date \<Rightarrow> bool" where
  "contains self d \<longleftrightarrow> earliest self \<le> d \<and> d \<le> latest self"

definition DateRange_tuple :: "DateRange \<Rightarrow> date \<times> date" where
  "DateRange_tuple self = (earliest self, latest self)"

text \<open>
  \<^verbatim>\<open>datetime.timedelta(days=n)\<close> is a number of days, and raises \<^verbatim>\<open>OverflowError\<close>
  beyond 999999999 days. \<^verbatim>\<open>date + timedelta\<close> adds the days to the ordinal and raises
  \<^verbatim>\<open>OverflowError\<close> when the result is not the ordinal of a date of the years 1 to 9999;
  \<^verbatim>\<open>date - timedelta\<close> adds the negated timedelta.
\<close>

definition timedelta :: "int \<Rightarrow> py_exception + int" where
  "timedelta days = (if \<bar>days\<bar> > 999999999 then Inl OverflowError else Inr days)"

definition date_add :: "date \<Rightarrow> int \<Rightarrow> py_exception + date" where
  "date_add d delta =
     (let ord = toordinal d + delta
      in if 0 < ord \<and> ord \<le> MAXORDINAL then Inr (fromordinal ord) else Inl OverflowError)"

definition date_sub :: "date \<Rightarrow> int \<Rightarrow> py_exception + date" where
  "date_sub d delta = date_add d (- delta)"

definition make_date_range :: "date \<Rightarrow> int \<Rightarrow> int \<Rightarrow> py_exception + DateRange" where
  "make_date_range ref overdue advance =
     (case timedelta overdue of
        Inl e \<Rightarrow> Inl e
      | Inr overdue_delta \<Rightarrow>
     (case timedelta advance of
        Inl e \<Rightarrow> Inl e
      | Inr advance_delta \<Rightarrow>
     (case date_sub ref overdue_delta of
        Inl e \<Rightarrow> Inl e
      | Inr earliest_v \<Rightarrow>
     (case date_add ref advance_delta of
        Inl e \<Rightarrow> Inl e
      | Inr latest_v \<Rightarrow> Inr \<lparr>earliest = earliest_v, latest = latest_v\<rparr>))))"

text \<open>The \<^verbatim>\<open>for\<close> loop of \<^verbatim>\<open>get_due_date\<close>; \<open>None\<close> is its \<^verbatim>\<open>else\<close> branch.\<close>

fun scan_dates :: "DueDate list \<Rightarrow> DateRange \<Rightarrow> date option" where
  "scan_dates [] daterange = None"
| "scan_dates (d # dates) daterange =
     (if completed d then scan_dates dates daterange
      else if contains daterange (date d) then Some (date d)
      else scan_dates dates daterange)"

definition get_due_date :: "DueDate list \<Rightarrow> date \<Rightarrow> int \<Rightarrow> int \<Rightarrow> py_exception + date" where
  "get_due_date dateblock reference overdue advance =
     (case make_date_range reference overdue advance of
        Inl e \<Rightarrow> Inl e
      | Inr daterange \<Rightarrow>
          let dates = sorted_py DueDate_lt dateblock
          in (case scan_dates dates daterange of
                Some d \<Rightarrow> Inr d
              | None \<Rightarrow> Inl (Rsf (NoDueDateFound (DateRange_tuple daterange) dateblock))))"

subsection \<open>The same function over a store of list objects\<close>

text \<open>
  To see what \<^verbatim>\<open>get_due_date\<close> does to the list it is given, lists are objects in a
  store, named by their index. \<^verbatim>\<open>sorted(dateblock)\<close> allocates a new list and leaves
  \<^verbatim>\<open>dateblock\<close> alone (\<^verbatim>\<open>dateblock.sort()\<close> would update it in place), and the exception
  is built from the reference \<^verbatim>\<open>dateblock\<close>.
\<close>

type_synonym store = "DueDate list list"

definition sorted_st :: "store \<Rightarrow> nat \<Rightarrow> nat \<times> store" where
  "sorted_st st a = (length st, st @ [sorted_py DueDate_lt (st ! a)])"

datatype raised_st =
    NoDueDateFound_ref "date \<times> date" nat
  | Other py_exception

definition get_due_date_st ::
  "store \<Rightarrow> nat \<Rightarrow> date \<Rightarrow> int \<Rightarrow> int \<Rightarrow> (raised_st + date) \<times> store" where
  "get_due_date_st st dateblock reference overdue advance =
     (case make_date_range reference overdue advance of
        Inl e \<Rightarrow> (Inl (Other e), st)
      | Inr daterange \<Rightarrow>
          let (dates, st') = sorted_st st dateblock
          in (case scan_dates (st' ! dates) daterange of
                Some d \<Rightarrow> (Inr d, st')
              | None \<Rightarrow> (Inl (NoDueDateFound_ref (DateRange_tuple daterange) dateblock), st')))"

section \<open>The display string\<close>




section \<open>MaybeResult\<close>

text \<open>
  \<^verbatim>\<open>MaybeResult.value\<close> is of type \<^verbatim>\<open>Any\<close>: the values that rsf.py puts there are a
  stream of lines (with the name of its class), a list of strings, a list of
  \<^verbatim>\<open>DueDate\<close>, a date, a string, and an exception.
\<close>

datatype pyval =
    VStream str "str list"
  | VStrList "str list"
  | VDueList "DueDate list"
  | VDate date
  | VStr str
  | VExc RsfException

record MaybeResult =
  "value" :: pyval
  success :: bool

text \<open>
  A \<^verbatim>\<open>GenericFunction\<close> may have effects, so it takes and returns a state \<open>'s\<close> of the
  world beside its argument; it returns a value or raises.
\<close>

type_synonym 's GenericFunction = "pyval \<Rightarrow> 's \<Rightarrow> (py_exception + pyval) \<times> 's"

definition bind ::
  "MaybeResult \<Rightarrow> 's GenericFunction \<Rightarrow> 's \<Rightarrow> (py_exception + MaybeResult) \<times> 's" where
  "bind self func s =
     (if success self = False then (Inr self, s)
      else (case func (value self) s of
              (Inr new_value, s') \<Rightarrow> (Inr \<lparr>value = new_value, success = True\<rparr>, s')
            | (Inl (Rsf e), s') \<Rightarrow> (Inr \<lparr>value = VExc e, success = False\<rparr>, s')
            | (Inl other, s') \<Rightarrow> (Inl other, s')))"

text \<open>\<^verbatim>\<open>r.bind(f).bind(g)\<close>: an exception that \<^verbatim>\<open>bind\<close> does not catch ends the chain.\<close>

definition then_bind ::
  "(py_exception + MaybeResult) \<times> 's \<Rightarrow> 's GenericFunction \<Rightarrow> (py_exception + MaybeResult) \<times> 's"
  where
  "then_bind r func = (case r of (Inl e, s) \<Rightarrow> (Inl e, s) | (Inr m, s) \<Rightarrow> bind m func s)"

section \<open>The pipeline of one file\<close>








section \<open>Notions used to state the properties\<close>

text \<open>
  \<open>ends r st st'\<close>: the pattern \<open>r\<close>, started in the state \<open>st\<close>, can end in \<open>st'\<close>.
\<close>

definition ends :: "rx \<Rightarrow> mstate \<Rightarrow> mstate \<Rightarrow> bool" where
  "ends r st st' \<longleftrightarrow> st' \<in> set (r st)"

text \<open>
  A date token: four digits, a hyphen, two digits, a hyphen, two digits, the digits being
  those of \<^verbatim>\<open>\d\<close>.
\<close>

fun date_token :: "str \<Rightarrow> bool" where
  "date_token [y1, y2, y3, y4, h1, m1, m2, h2, d1, d2] \<longleftrightarrow>
     list_all is_digit [y1, y2, y3, y4, m1, m2, d1, d2] \<and> h1 = cp CHR ''-'' \<and> h2 = cp CHR ''-''"
| "date_token _ \<longleftrightarrow> False"

text \<open>
  The start marker as the specification words it: the letters of \<^verbatim>\<open>rsf:\<close> in either
  case, then white space (a newline is white space) and nothing else.
\<close>

fun spec_start_marker_line :: "str \<Rightarrow> bool" where
  "spec_start_marker_line (c1 # c2 # c3 # c4 # ws) \<longleftrightarrow>
     (c1 = cp CHR ''r'' \<or> c1 = cp CHR ''R'') \<and> (c2 = cp CHR ''s'' \<or> c2 = cp CHR ''S'') \<and>
     (c3 = cp CHR ''f'' \<or> c3 = cp CHR ''F'') \<and> c4 = cp CHR '':'' \<and> list_all is_space ws"
| "spec_start_marker_line _ \<longleftrightarrow> False"

text \<open>
  The date entry as the specification words it: optional white space, a bullet, optional
  white space, an optional \<^verbatim>\<open>x\<close> or \<^verbatim>\<open>X\<close>, optional white space, a date token, optional
  white space and nothing else.
\<close>

definition spec_date_entry_line :: "str \<Rightarrow> bool" where
  "spec_date_entry_line line \<longleftrightarrow>
     (case dropWhile is_space line of
        [] \<Rightarrow> False
      | b # r0 \<Rightarrow>
          (b = cp CHR ''-'' \<or> b = cp CHR ''*'') \<and>
          (let r1 = dropWhile is_space r0;
               r2 = (case r1 of
                       [] \<Rightarrow> []
                     | c # cs \<Rightarrow> if c = cp CHR ''x'' \<or> c = cp CHR ''X'' then cs else r1);
               r3 = dropWhile is_space r2
           in date_token (take 10 r3) \<and> list_all is_space (drop 10 r3)))"

text \<open>Removing the newlines at the end of a string, and only those.\<close>

definition rstrip_newlines :: "str \<Rightarrow> str" where
  "rstrip_newlines s = rev (dropWhile (\<lambda>c. c = newline) (rev s))"


text \<open>A chain of \<^verbatim>\<open>bind\<close> calls: \<^verbatim>\<open>r.bind(f1).bind(f2)\<close> and so on.\<close>

definition bind_chain ::
  "MaybeResult \<Rightarrow> 's GenericFunction list \<Rightarrow> 's \<Rightarrow> (py_exception + MaybeResult) \<times> 's" where
  "bind_chain r fs s = foldl then_bind (Inr r, s) fs"

section \<open>Properties of the regular expressions\<close>

lemma ends_seq:
  "ends (rx_seq r1 r2) st st' \<longleftrightarrow> (\<exists>st1. ends r1 st st1 \<and> ends r2 st1 st')"
  by (auto simp: rx_seq_def ends_def)

lemma ends_class:
  "ends (rx_class P) (g, p, s) st' \<longleftrightarrow> (\<exists>c cs. s = c # cs \<and> P c \<and> st' = (g, Suc p, cs))"
  by (auto simp: rx_class_def ends_def split: list.splits)

lemma ends_opt: "ends (rx_opt r) st st' \<longleftrightarrow> ends r st st' \<or> st' = st"
  by (auto simp: rx_opt_def ends_def)

lemma ends_alt: "ends (rx_alt r1 r2) st st' \<longleftrightarrow> ends r1 st st' \<or> ends r2 st st'"
  by (auto simp: rx_alt_def ends_def)

lemma ends_empty: "ends rx_empty st st' \<longleftrightarrow> st' = st"
  by (simp add: rx_empty_def ends_def)

lemma ends_bol: "ends rx_bol (g, p, s) st' \<longleftrightarrow> p = 0 \<and> st' = (g, p, s)"
  by (auto simp: rx_bol_def ends_def)

lemma ends_group:
  "ends (rx_group name r) (g, p, s) st' \<longleftrightarrow>
   (\<exists>g1 p1 s1. ends r (g, p, s) (g1, p1, s1) \<and> st' = ((name, take (p1 - p) s) # g1, p1, s1))"
  by (force simp: rx_group_def ends_def)

lemma le_length_takeWhile_iff:
  "n \<le> length (takeWhile P s) \<longleftrightarrow> n \<le> length s \<and> list_all P (take n s)"
proof (induction s arbitrary: n)
  case Nil
  then show ?case by simp
next
  case (Cons a s)
  then show ?case by (cases n) auto
qed

lemma ends_star_class:
  "ends (rx_star_class P) (g, p, s) st' \<longleftrightarrow>
   (\<exists>u v. s = u @ v \<and> list_all P u \<and> st' = (g, p + length u, v))"
proof
  assume "ends (rx_star_class P) (g, p, s) st'"
  then obtain n where n: "n \<le> length (takeWhile P s)" "st' = (g, p + n, drop n s)"
    by (auto simp: rx_star_class_def ends_def less_Suc_eq_le simp del: upt_Suc)
  then have "s = take n s @ drop n s" "list_all P (take n s)" "length (take n s) = n"
    by (simp_all add: le_length_takeWhile_iff)
  with n(2) show "\<exists>u v. s = u @ v \<and> list_all P u \<and> st' = (g, p + length u, v)"
    by metis
next
  assume "\<exists>u v. s = u @ v \<and> list_all P u \<and> st' = (g, p + length u, v)"
  then obtain u v where uv: "s = u @ v" "list_all P u" "st' = (g, p + length u, v)"
    by blast
  then have "length u \<le> length (takeWhile P s)"
    by (simp add: le_length_takeWhile_iff)
  moreover have "drop (length u) s = v"
    using uv by simp
  ultimately show "ends (rx_star_class P) (g, p, s) st'"
    using uv(3) by (auto simp: rx_star_class_def ends_def less_Suc_eq_le image_iff simp del: upt_Suc)
qed

text \<open>The same rules for a pattern followed by the rest of a sequence.\<close>

lemma ends_seq_class:
  "ends (rx_seq (rx_class P) r) (g, p, s) st' \<longleftrightarrow>
     (\<exists>c cs. s = c # cs \<and> P c \<and> ends r (g, Suc p, cs) st')"
  by (auto simp: ends_seq ends_class)

lemma ends_seq_star_class:
  "ends (rx_seq (rx_star_class P) r) (g, p, s) st' \<longleftrightarrow>
     (\<exists>u v. s = u @ v \<and> list_all P u \<and> ends r (g, p + length u, v) st')"
  by (auto simp: ends_seq ends_star_class)

lemma ends_seq_opt:
  "ends (rx_seq (rx_opt r1) r) st st' \<longleftrightarrow> ends (rx_seq r1 r) st st' \<or> ends r st st'"
  unfolding ends_seq ends_opt by blast

lemma ends_seq_alt:
  "ends (rx_seq (rx_alt r1 r2) r) st st' \<longleftrightarrow>
     ends (rx_seq r1 r) st st' \<or> ends (rx_seq r2 r) st st'"
  unfolding ends_seq ends_alt by blast

lemma ends_seq_empty: "ends (rx_seq rx_empty r) st st' \<longleftrightarrow> ends r st st'"
  unfolding ends_seq ends_empty by blast

lemma ends_seq_bol: "ends (rx_seq rx_bol r) (g, p, s) st' \<longleftrightarrow> p = 0 \<and> ends r (g, p, s) st'"
  by (auto simp: ends_seq ends_bol)

lemma ends_seq_group:
  "ends (rx_seq (rx_group name r1) r) (g, p, s) st' \<longleftrightarrow>
     (\<exists>g1 p1 s1. ends r1 (g, p, s) (g1, p1, s1) \<and>
        ends r ((name, take (p1 - p) s) # g1, p1, s1) st')"
  by (auto simp: ends_seq ends_group)

lemma ends_seq_assoc:
  "ends (rx_seq (rx_seq r1 r2) r) st st' \<longleftrightarrow> ends (rx_seq r1 (rx_seq r2 r)) st st'"
  unfolding ends_seq by blast

lemmas ends_rx = ends_seq_class ends_seq_star_class ends_seq_opt ends_seq_alt ends_seq_empty
  ends_seq_bol ends_seq_group ends_seq_assoc
  ends_class ends_opt ends_alt ends_empty ends_bol ends_group ends_star_class

lemma ends_seq_bolI: "ends r (g, 0, s) st' \<Longrightarrow> ends (rx_seq rx_bol r) (g, 0, s) st'"
  by (simp add: ends_seq_bol)

lemma ends_seq_classI:
  "P c \<Longrightarrow> ends r (g, Suc p, cs) st' \<Longrightarrow> ends (rx_seq (rx_class P) r) (g, p, c # cs) st'"
  by (simp add: ends_seq_class)

lemma ends_seq_star_classI:
  "list_all P u \<Longrightarrow> ends r (g, p + length u, v) st' \<Longrightarrow>
   ends (rx_seq (rx_star_class P) r) (g, p, u @ v) st'"
  unfolding ends_seq_star_class by blast

lemma ends_seq_star_class_skipI:
  "ends r (g, p, v) st' \<Longrightarrow> ends (rx_seq (rx_star_class P) r) (g, p, v) st'"
  using ends_seq_star_classI[of P "[]" r g p v st'] by simp

lemma ends_seq_groupI:
  "ends r1 (g, p, s) (g1, p1, s1) \<Longrightarrow> ends r ((name, take (p1 - p) s) # g1, p1, s1) st' \<Longrightarrow>
   ends (rx_seq (rx_group name r1) r) (g, p, s) st'"
  unfolding ends_seq_group by blast

lemma ends_star_class_endI: "st' = (g, p, v) \<Longrightarrow> ends (rx_star_class P) (g, p, v) st'"
  unfolding ends_star_class by (rule exI[of _ "[]"], rule exI[of _ v]) simp

lemma re_match_None_iff: "re_match r s = None \<longleftrightarrow> \<not> (\<exists>st'. ends r ([], 0, s) st')"
  by (cases "r ([], 0, s)") (auto simp: re_match_def ends_def)

lemma re_match_Some_ends:
  "re_match r s = Some m \<Longrightarrow> \<exists>p s'. ends r ([], 0, s) (groupdict m, p, s')"
  by (cases "r ([], 0, s)") (force simp: re_match_def ends_def)+

subsection \<open>Characters\<close>

lemma cp_eq_iff [simp]: "cp a = cp b \<longleftrightarrow> a = b"
  by (simp add: cp_def)

lemma str_simps [simp]: "str [] = []" "str (c # cs) = cp c # str cs"
  by (simp_all add: str_def)

lemma ignorecase_r:
  "x \<in> set (ignorecase_class (cp CHR ''r'')) \<longleftrightarrow> x = cp CHR ''r'' \<or> x = cp CHR ''R''"
  by (auto simp: ignorecase_class_def cp_def)

lemma ignorecase_s:
  "x \<in> set (ignorecase_class (cp CHR ''s'')) \<longleftrightarrow>
     x = cp CHR ''s'' \<or> x = cp CHR ''S'' \<or> x = 0x017F"
  by (auto simp: ignorecase_class_def cp_def)

lemma ignorecase_f:
  "x \<in> set (ignorecase_class (cp CHR ''f'')) \<longleftrightarrow> x = cp CHR ''f'' \<or> x = cp CHR ''F''"
  by (auto simp: ignorecase_class_def cp_def)

lemma ignorecase_colon: "x \<in> set (ignorecase_class (cp CHR '':'')) \<longleftrightarrow> x = cp CHR '':''"
  by (auto simp: ignorecase_class_def cp_def)

lemma whitespace_not_digit: "list_all (\<lambda>c. \<not> is_digit c) WHITESPACE"
  by code_simp

lemma space_not_digit: "is_space c \<Longrightarrow> \<not> is_digit c"
  using whitespace_not_digit by (simp add: is_space_def list_all_iff)

lemma ascii_digit_is_digit: "is_ascii_digit c \<Longrightarrow> is_digit c"
  by (simp add: is_ascii_digit_def is_digit_def DECIMAL_ZEROS_def cp_def)

subsection \<open>The start marker\<close>

lemma start_match_iff:
  "\<not> isnot_start_pattern_match line \<longleftrightarrow>
     (\<exists>c1 c2 c3 rest. line = c1 # c2 # c3 # cp CHR '':'' # rest \<and>
        (c1 = cp CHR ''r'' \<or> c1 = cp CHR ''R'') \<and>
        (c2 = cp CHR ''s'' \<or> c2 = cp CHR ''S'' \<or> c2 = 0x017F) \<and>
        (c3 = cp CHR ''f'' \<or> c3 = cp CHR ''F''))"
proof
  assume "\<not> isnot_start_pattern_match line"
  then have "\<exists>c1 c2 c3 c4 rest. line = c1 # c2 # c3 # c4 # rest \<and>
        c1 \<in> set (ignorecase_class (cp CHR ''r'')) \<and>
        c2 \<in> set (ignorecase_class (cp CHR ''s'')) \<and>
        c3 \<in> set (ignorecase_class (cp CHR ''f'')) \<and>
        c4 \<in> set (ignorecase_class (cp CHR '':''))"
    unfolding isnot_start_pattern_match_def re_match_None_iff START_PATTERN_def rx_lit_ci_def
      rx_lit_def
    by (simp add: ends_rx) blast
  then show "\<exists>c1 c2 c3 rest. line = c1 # c2 # c3 # cp CHR '':'' # rest \<and>
        (c1 = cp CHR ''r'' \<or> c1 = cp CHR ''R'') \<and>
        (c2 = cp CHR ''s'' \<or> c2 = cp CHR ''S'' \<or> c2 = 0x017F) \<and>
        (c3 = cp CHR ''f'' \<or> c3 = cp CHR ''F'')"
    unfolding ignorecase_r ignorecase_s ignorecase_f ignorecase_colon by blast
next
  assume "\<exists>c1 c2 c3 rest. line = c1 # c2 # c3 # cp CHR '':'' # rest \<and>
        (c1 = cp CHR ''r'' \<or> c1 = cp CHR ''R'') \<and>
        (c2 = cp CHR ''s'' \<or> c2 = cp CHR ''S'' \<or> c2 = 0x017F) \<and>
        (c3 = cp CHR ''f'' \<or> c3 = cp CHR ''F'')"
  then obtain c1 c2 c3 rest where l: "line = c1 # c2 # c3 # cp CHR '':'' # rest"
    and c: "c1 \<in> set (ignorecase_class (cp CHR ''r''))"
      "c2 \<in> set (ignorecase_class (cp CHR ''s''))"
      "c3 \<in> set (ignorecase_class (cp CHR ''f''))"
    unfolding ignorecase_r ignorecase_s ignorecase_f by blast
  have c4: "cp CHR '':'' \<in> set (ignorecase_class (cp CHR '':''))"
    unfolding ignorecase_colon by simp
  have "ends START_PATTERN ([], 0, line) ([], 4, rest)"
    unfolding START_PATTERN_def rx_lit_ci_def l
    apply (rule ends_seq_classI, rule c)+
    apply (rule ends_seq_classI, rule c4)
    apply (rule ends_seq_star_class_skipI)
    apply (simp add: ends_opt)
    done
  then show "\<not> isnot_start_pattern_match line"
    unfolding isnot_start_pattern_match_def re_match_None_iff by blast
qed

lemma ends_START_PATTERN_groups:
  "ends START_PATTERN ([], 0, line) (g', p', s') \<Longrightarrow> g' = []"
  unfolding START_PATTERN_def rx_lit_ci_def rx_lit_def
  by (simp add: ends_rx) blast

subsection \<open>The date entry\<close>

lemma date_token_iff:
  "date_token d \<longleftrightarrow>
     (\<exists>y1 y2 y3 y4 m1 m2 d1 d2.
        d = [y1, y2, y3, y4, cp CHR ''-'', m1, m2, cp CHR ''-'', d1, d2] \<and>
        list_all is_digit [y1, y2, y3, y4, m1, m2, d1, d2])"
  by (induction d rule: date_token.induct) auto

lemma date_token_length: "date_token d \<Longrightarrow> length d = 10"
  by (auto simp: date_token_iff)

lemma ends_DATE_TOKEN:
  "ends DATE_TOKEN (g, p, s) st' \<longleftrightarrow> (\<exists>d v. s = d @ v \<and> date_token d \<and> st' = (g, p + 10, v))"
  unfolding DATE_TOKEN_def rx_lit_def date_token_iff
  by (simp add: ends_rx eval_nat_numeral) auto

lemma ends_DATE_TOKEN_I: "date_token d \<Longrightarrow> ends DATE_TOKEN (g, p, d @ v) (g, p + 10, v)"
  unfolding ends_DATE_TOKEN by blast

lemma ends_DATE_PATTERN_flag:
  assumes "b = cp CHR ''-'' \<or> b = cp CHR ''*''" "list_all is_space ws1"
    "c = cp CHR ''x'' \<or> c = cp CHR ''X''" "list_all is_space ws2" "date_token d"
  shows "ends DATE_PATTERN ([], 0, b # ws1 @ c # ws2 @ d @ rest)
           ([(''date'', d), (''completed'', [c])], length ws1 + length ws2 + 12, rest)"
  unfolding DATE_PATTERN_def
  apply (rule ends_seq_bolI)
  apply (rule ends_seq_classI, simp add: assms)
  apply (rule ends_seq_star_classI, rule assms)
  apply (subst ends_seq_opt, rule disjI1)
  apply (rule ends_seq_groupI[where ?g1.0 = "[]" and ?p1.0 = "Suc (Suc 0 + length ws1)"
        and ?s1.0 = "ws2 @ d @ rest"])
   apply (use assms in \<open>simp add: ends_alt ends_class rx_lit_def; fail\<close>)
  apply (rule ends_seq_star_classI, rule assms)
  apply (rule ends_seq_groupI)
   apply (rule ends_DATE_TOKEN_I, rule assms)
  apply (rule ends_star_class_endI)
  apply (use assms in \<open>simp add: date_token_length\<close>)
  done

lemma ends_DATE_PATTERN_noflag:
  assumes "b = cp CHR ''-'' \<or> b = cp CHR ''*''" "list_all is_space ws1"
    "list_all is_space ws2" "date_token d"
  shows "ends DATE_PATTERN ([], 0, b # ws1 @ ws2 @ d @ rest)
           ([(''date'', d)], length ws1 + length ws2 + 11, rest)"
  unfolding DATE_PATTERN_def
  apply (rule ends_seq_bolI)
  apply (rule ends_seq_classI, simp add: assms)
  apply (rule ends_seq_star_classI, rule assms)
  apply (subst ends_seq_opt, rule disjI2)
  apply (rule ends_seq_star_classI, rule assms)
  apply (rule ends_seq_groupI)
   apply (rule ends_DATE_TOKEN_I, rule assms)
  apply (rule ends_star_class_endI)
  apply (use assms in \<open>simp add: date_token_length\<close>)
  done

lemma ends_DATE_PATTERN_D:
  assumes "ends DATE_PATTERN ([], 0, line) (g', p', s')"
  shows "(\<exists>b ws1 c ws2 d rest. line = b # ws1 @ c # ws2 @ d @ rest \<and>
        (b = cp CHR ''-'' \<or> b = cp CHR ''*'') \<and> list_all is_space ws1 \<and>
        (c = cp CHR ''x'' \<or> c = cp CHR ''X'') \<and> list_all is_space ws2 \<and> date_token d \<and>
        g' = [(''date'', d), (''completed'', [c])]) \<or>
     (\<exists>b ws1 ws2 d rest. line = b # ws1 @ ws2 @ d @ rest \<and>
        (b = cp CHR ''-'' \<or> b = cp CHR ''*'') \<and> list_all is_space ws1 \<and>
        list_all is_space ws2 \<and> date_token d \<and>
        g' = [(''date'', d)])"
  using assms unfolding DATE_PATTERN_def rx_lit_def
  apply (simp add: ends_rx ends_DATE_TOKEN)
  apply (elim exE conjE disjE)
       apply (auto simp: date_token_length)
  done

section \<open>Limiting the stream is taking the first lines\<close>

lemma compress_replicate_True: "compress xs (replicate n True) = take n xs"
proof (induction xs arbitrary: n)
  case Nil
  then show ?case by (cases n) simp_all
next
  case (Cons x xs)
  then show ?case by (cases n) simp_all
qed

lemma limit_stream_take:
  "0 < limit \<Longrightarrow> limit \<le> maxsize \<Longrightarrow> limit_stream xs limit = Inr (take (nat limit) xs)"
  by (simp add: limit_stream_def repeat_def compress_replicate_True maxsize_def)

lemma limit_stream_overflow: "maxsize < limit \<Longrightarrow> limit_stream xs limit = Inl OverflowError"
  by (simp add: limit_stream_def repeat_def maxsize_def)

lemma find_dateblock_no_marker:
  assumes "list_all isnot_start_pattern_match ls"
  shows "find_dateblock ls = Inl (Rsf DateblockNotFound)"
proof -
  have d: "dropWhile isnot_start_pattern_match ls = []"
    using assms by (simp add: list_all_iff)
  show ?thesis
    unfolding find_dateblock_def droptake_def d by simp
qed

text \<open>
  C8, as the code has it. With a positive limit \<open>N\<close> that is not above \<^verbatim>\<open>sys.maxsize\<close>,
  \<^verbatim>\<open>_limit_stream\<close> (\<^verbatim>\<open>compress\<close> with \<^verbatim>\<open>repeat(True, N)\<close>) yields exactly the first \<open>N\<close>
  lines of the stream, all of them when the stream is shorter: it is \<open>take\<close>. So a
  dateblock whose marker is not among the first \<open>N\<close> lines is not found. With a limit that
  is 0 (or negative) the stream is returned unchanged. With a limit above \<^verbatim>\<open>sys.maxsize\<close>
  it raises \<^verbatim>\<open>OverflowError\<close>.
\<close>

theorem limit_stream_first_lines:
  "(0 < N \<and> N \<le> maxsize \<longrightarrow> limit_stream ls N = Inr (take (nat N) ls)) \<and>
   (N \<le> 0 \<longrightarrow> limit_stream ls N = Inr ls) \<and>
   (maxsize < N \<longrightarrow> limit_stream ls N = Inl OverflowError) \<and>
   (0 < N \<and> N \<le> maxsize \<and> list_all isnot_start_pattern_match (take (nat N) ls) \<longrightarrow>
      (\<exists>limited. limit_stream ls N = Inr limited \<and>
         find_dateblock limited = Inl (Rsf DateblockNotFound)))"
proof (intro conjI impI)
  assume "0 < N \<and> N \<le> maxsize"
  then show "limit_stream ls N = Inr (take (nat N) ls)"
    by (simp add: limit_stream_take)
next
  assume "N \<le> 0"
  then show "limit_stream ls N = Inr ls"
    by (simp add: limit_stream_def)
next
  assume "maxsize < N"
  then show "limit_stream ls N = Inl OverflowError"
    by (rule limit_stream_overflow)
next
  assume a: "0 < N \<and> N \<le> maxsize \<and> list_all isnot_start_pattern_match (take (nat N) ls)"
  then have "limit_stream ls N = Inr (take (nat N) ls)"
    by (simp add: limit_stream_take)
  moreover have "find_dateblock (take (nat N) ls) = Inl (Rsf DateblockNotFound)"
    using a by (simp add: find_dateblock_no_marker)
  ultimately show "\<exists>limited. limit_stream ls N = Inr limited \<and>
         find_dateblock limited = Inl (Rsf DateblockNotFound)"
    by blast
qed

theorem limit_stream_first_lines_witness:
  "limit_stream [str ''a'', str ''rsf:'', str ''- 2022-03-10''] 1 = Inr [str ''a''] \<and>
   limit_stream [str ''a'', str ''rsf:'', str ''- 2022-03-10''] 5 =
     Inr [str ''a'', str ''rsf:'', str ''- 2022-03-10''] \<and>
   limit_stream [str ''a'', str ''rsf:'', str ''- 2022-03-10''] 0 =
     Inr [str ''a'', str ''rsf:'', str ''- 2022-03-10''] \<and>
   limit_stream [str ''a'', str ''rsf:'', str ''- 2022-03-10''] (2 ^ 63) = Inl OverflowError \<and>
   find_dateblock [str ''a''] = Inl (Rsf DateblockNotFound) \<and>
   find_dateblock [str ''a'', str ''rsf:'', str ''- 2022-03-10''] = Inr [str ''- 2022-03-10'']"
proof -
  let ?ls = "[str ''a'', str ''rsf:'', str ''- 2022-03-10'']"
  have pre1: "(0::int) < 1 \<and> 1 \<le> maxsize \<and>
      list_all isnot_start_pattern_match (take (nat 1) ?ls)"
    by code_simp
  have pre5: "(0::int) < 5 \<and> 5 \<le> maxsize"
    by code_simp
  have pre0: "(0::int) \<le> 0"
    by simp
  have preM: "maxsize < 2 ^ 63"
    by code_simp
  have t1: "take (nat 1) ?ls = [str ''a'']" and t5: "take (nat 5) ?ls = ?ls"
    by simp_all
  have full: "find_dateblock ?ls = Inr [str ''- 2022-03-10'']"
    by code_simp
  note T1 = limit_stream_first_lines[of 1 ?ls]
  note T5 = limit_stream_first_lines[of 5 ?ls]
  note T0 = limit_stream_first_lines[of 0 ?ls]
  note TM = limit_stream_first_lines[of "2 ^ 63" ?ls]
  from T1 pre1 have a: "limit_stream ?ls 1 = Inr (take (nat 1) ?ls)"
    by blast
  from T1 pre1 have "\<exists>limited. limit_stream ?ls 1 = Inr limited \<and>
      find_dateblock limited = Inl (Rsf DateblockNotFound)"
    by blast
  with a have c: "find_dateblock (take (nat 1) ?ls) = Inl (Rsf DateblockNotFound)"
    by auto
  from T5 pre5 have b: "limit_stream ?ls 5 = Inr (take (nat 5) ?ls)"
    by blast
  from T0 pre0 have z: "limit_stream ?ls 0 = Inr ?ls"
    by blast
  from TM preM have m: "limit_stream ?ls (2 ^ 63) = Inl OverflowError"
    by blast
  from a b c z m full show ?thesis
    unfolding t1 t5 by blast
qed

text \<open>
  The claim as it is stated, for every positive integer, fails: a limit above
  \<^verbatim>\<open>sys.maxsize\<close> raises \<^verbatim>\<open>OverflowError\<close> and yields no line.
\<close>

theorem limit_stream_overflow_counterexample:
  "limit_stream [str ''rsf:'', str ''- 2022-03-10''] 9223372036854775808 = Inl OverflowError \<and>
   limit_stream [str ''rsf:'', str ''- 2022-03-10''] 9223372036854775808 \<noteq>
     Inr (take (nat 9223372036854775808) [str ''rsf:'', str ''- 2022-03-10''])"
  by (simp add: limit_stream_def repeat_def maxsize_def)

section \<open>The order of DueDate\<close>

lemma insort_lt_DueDate: "insort_lt DueDate_lt x ys = insort_key date x ys"
  by (induction ys) (auto simp: DueDate_lt_def)

lemma sorted_py_DueDate: "sorted_py DueDate_lt xs = sort_key date xs"
  by (induction xs) (simp_all add: sorted_py_def insort_lt_DueDate)

lemma map_sort_key: "map f (sort_key f xs) = sort (map f xs)"
  by (rule properties_for_sort[symmetric]) simp_all

text \<open>
  C6. Two DueDate values compare by their dates alone: \<open>a < b\<close> iff \<open>date a < date b\<close>,
  they are equal iff their dates are, and the completed flags play no part. Sorting a list
  of DueDate gives a permutation of it in ascending order of date, the dates being those of
  the list sorted, and entries of one date keep the order they had.
\<close>

theorem DueDate_order_by_date:
  "(DueDate_lt a b \<longleftrightarrow> date a < date b) \<and>
   (DueDate_eq a b \<longleftrightarrow> date a = date b) \<and>
   DueDate_lt (a\<lparr>completed := c\<rparr>) (b\<lparr>completed := c'\<rparr>) = DueDate_lt a b \<and>
   DueDate_eq (a\<lparr>completed := c\<rparr>) (b\<lparr>completed := c'\<rparr>) = DueDate_eq a b \<and>
   sorted (map date (sorted_py DueDate_lt xs)) \<and>
   mset (sorted_py DueDate_lt xs) = mset xs \<and>
   map date (sorted_py DueDate_lt xs) = sort (map date xs) \<and>
   filter (\<lambda>x. date x = k) (sorted_py DueDate_lt xs) = filter (\<lambda>x. date x = k) xs"
  by (simp add: DueDate_lt_def DueDate_eq_def sorted_py_DueDate sort_key_stable map_sort_key)

theorem DueDate_order_by_date_witness:
  "DueDate_eq \<lparr>date = Date 2022 3 10, completed = True\<rparr>
     \<lparr>date = Date 2022 3 10, completed = False\<rparr> \<and>
   DueDate_lt \<lparr>date = Date 2022 3 10, completed = True\<rparr>
     \<lparr>date = Date 2022 3 15, completed = False\<rparr> \<and>
   sorted_py DueDate_lt
     [\<lparr>date = Date 2022 3 15, completed = False\<rparr>, \<lparr>date = Date 2022 3 10, completed = True\<rparr>,
      \<lparr>date = Date 2022 3 10, completed = False\<rparr>] =
     [\<lparr>date = Date 2022 3 10, completed = True\<rparr>, \<lparr>date = Date 2022 3 10, completed = False\<rparr>,
      \<lparr>date = Date 2022 3 15, completed = False\<rparr>] \<and>
   filter (\<lambda>x. date x = Date 2022 3 10) (sorted_py DueDate_lt
     [\<lparr>date = Date 2022 3 15, completed = False\<rparr>, \<lparr>date = Date 2022 3 10, completed = True\<rparr>,
      \<lparr>date = Date 2022 3 10, completed = False\<rparr>]) =
     [\<lparr>date = Date 2022 3 10, completed = True\<rparr>, \<lparr>date = Date 2022 3 10, completed = False\<rparr>]"
proof -
  have lt: "Date 2022 3 10 < Date 2022 3 15" "\<not> Date 2022 3 15 < Date 2022 3 10"
    by (simp_all add: less_date_def)
  have s: "sorted_py DueDate_lt
     [\<lparr>date = Date 2022 3 15, completed = False\<rparr>, \<lparr>date = Date 2022 3 10, completed = True\<rparr>,
      \<lparr>date = Date 2022 3 10, completed = False\<rparr>] =
     [\<lparr>date = Date 2022 3 10, completed = True\<rparr>, \<lparr>date = Date 2022 3 10, completed = False\<rparr>,
      \<lparr>date = Date 2022 3 15, completed = False\<rparr>]"
    by (simp add: sorted_py_def DueDate_lt_def lt)
  show ?thesis
    using DueDate_order_by_date[of "\<lparr>date = Date 2022 3 10, completed = True\<rparr>"
        "\<lparr>date = Date 2022 3 15, completed = False\<rparr>" True False
        "[\<lparr>date = Date 2022 3 15, completed = False\<rparr>,
          \<lparr>date = Date 2022 3 10, completed = True\<rparr>,
          \<lparr>date = Date 2022 3 10, completed = False\<rparr>]" "Date 2022 3 10"]
    by (simp add: s DueDate_eq_def lt)
qed

section \<open>MaybeResult.bind\<close>

lemma bind_chain_failed: "\<not> success r \<Longrightarrow> bind_chain r fs s = (Inr r, s)"
  unfolding bind_chain_def
  by (induction fs) (simp_all add: then_bind_def bind_def)

lemma bind_chain_Cons:
  "bind_chain r (f # fs) s =
     (case bind r f s of
        (Inl e, s') \<Rightarrow> foldl then_bind (Inl e, s') fs
      | (Inr m, s') \<Rightarrow> bind_chain m fs s')"
  by (auto simp: bind_chain_def then_bind_def split: prod.splits sum.splits)

text \<open>
  C5. For a MaybeResult \<open>r\<close> with success = false and any function \<open>f\<close>, \<open>bind r f\<close>
  returns \<open>r\<close> itself and leaves the state of the world as it was: \<open>f\<close> is not invoked. For
  \<open>r\<close> with success = true it returns a success that holds the value \<open>f\<close> returns, and a
  failure that holds the exception when \<open>f\<close> raises one of the three kinds of error. After a
  failure every further \<open>bind\<close> of a chain is skipped, and the chain ends in that failure.
\<close>

theorem bind_short_circuits:
  "(success r = False \<longrightarrow> bind r f s = (Inr r, s)) \<and>
   (success r = True \<and> f (value r) s = (Inr v, s') \<longrightarrow>
      bind r f s = (Inr \<lparr>value = v, success = True\<rparr>, s')) \<and>
   (success r = True \<and> f (value r) s = (Inl (Rsf e), s') \<longrightarrow>
      bind r f s = (Inr \<lparr>value = VExc e, success = False\<rparr>, s') \<and>
      bind_chain r (f # fs) s = (Inr \<lparr>value = VExc e, success = False\<rparr>, s')) \<and>
   (success r = False \<longrightarrow> bind_chain r fs s = (Inr r, s))"
  by (auto simp: bind_def bind_chain_failed bind_chain_Cons)

theorem bind_short_circuits_witness:
  "bind \<lparr>value = VStr (str ''a''), success = True\<rparr>
      (\<lambda>v n. (Inl (Rsf DateblockNotFound), Suc n)) (0::nat) =
     (Inr \<lparr>value = VExc DateblockNotFound, success = False\<rparr>, 1) \<and>
   bind_chain \<lparr>value = VStr (str ''a''), success = True\<rparr>
      [\<lambda>v n. (Inl (Rsf DateblockNotFound), Suc n), \<lambda>v n. (Inr (VStr (str ''b'')), Suc n),
       \<lambda>v n. (Inr (VStr (str ''c'')), Suc n)] (0::nat) =
     (Inr \<lparr>value = VExc DateblockNotFound, success = False\<rparr>, 1) \<and>
   bind \<lparr>value = VExc DateblockNotFound, success = False\<rparr>
      (\<lambda>v n. (Inr (VStr (str ''b'')), Suc n)) (1::nat) =
     (Inr \<lparr>value = VExc DateblockNotFound, success = False\<rparr>, 1) \<and>
   bind \<lparr>value = VStr (str ''a''), success = True\<rparr> (\<lambda>v n. (Inr (VStr (str ''b'')), Suc n)) (0::nat) =
     (Inr \<lparr>value = VStr (str ''b''), success = True\<rparr>, 1)"
proof -
  note A = bind_short_circuits[of "\<lparr>value = VStr (str ''a''), success = True\<rparr>"
      "\<lambda>v n. (Inl (Rsf DateblockNotFound), Suc n)" "0::nat" "VStr (str ''b'')" "1::nat"
      DateblockNotFound
      "[\<lambda>v n. (Inr (VStr (str ''b'')), Suc n), \<lambda>v n. (Inr (VStr (str ''c'')), Suc n)]"]
  note B = bind_short_circuits[of "\<lparr>value = VExc DateblockNotFound, success = False\<rparr>"
      "\<lambda>v n. (Inr (VStr (str ''b'')), Suc n)" "1::nat" "VStr (str ''b'')" "1::nat" DateblockNotFound "[]"]
  note C = bind_short_circuits[of "\<lparr>value = VStr (str ''a''), success = True\<rparr>"
      "\<lambda>v n. (Inr (VStr (str ''b'')), Suc n)" "0::nat" "VStr (str ''b'')" "1::nat" DateblockNotFound "[]"]
  from A B C show ?thesis by simp
qed

section \<open>The start marker\<close>

lemma spec_start_marker_line_match:
  "spec_start_marker_line line \<Longrightarrow> \<not> isnot_start_pattern_match line"
  unfolding start_match_iff
  by (induction line rule: spec_start_marker_line.induct) auto

lemma start_match_no_groups:
  "re_match START_PATTERN line = Some m \<Longrightarrow> groupdict m = []"
  using re_match_Some_ends[of START_PATTERN line m] ends_START_PATTERN_groups by blast

text \<open>
  C7, as the code has it. The start-marker matcher accepts a line iff the line begins with
  the letters of \<^verbatim>\<open>rsf:\<close> in either case, as \<^verbatim>\<open>re.IGNORECASE\<close> has it on a \<^verbatim>\<open>str\<close> (the
  long s, U+017F, is an \<^verbatim>\<open>s\<close> too), whatever follows them: \<^verbatim>\<open>re.match\<close> anchors the pattern
  at the start of the line only. Every line that is the marker followed by white space
  alone is accepted. A match has no groups: nothing is extracted.
\<close>

theorem start_marker_is_prefix_match:
  "(\<not> isnot_start_pattern_match line \<longleftrightarrow>
      (\<exists>c1 c2 c3 rest. line = c1 # c2 # c3 # cp CHR '':'' # rest \<and>
        (c1 = cp CHR ''r'' \<or> c1 = cp CHR ''R'') \<and>
        (c2 = cp CHR ''s'' \<or> c2 = cp CHR ''S'' \<or> c2 = 0x017F) \<and>
        (c3 = cp CHR ''f'' \<or> c3 = cp CHR ''F''))) \<and>
   (spec_start_marker_line line \<longrightarrow> \<not> isnot_start_pattern_match line) \<and>
   (re_match START_PATTERN line = Some m \<longrightarrow> groupdict m = [])"
  using start_match_iff[of line] spec_start_marker_line_match[of line]
    start_match_no_groups[of line m] by blast

theorem start_marker_is_prefix_match_witness:
  "spec_start_marker_line (str ''rSf:  '' @ [newline]) \<and>
   \<not> isnot_start_pattern_match (str ''rSf:  '' @ [newline]) \<and>
   re_match START_PATTERN (str ''rSf:  '' @ [newline]) =
     Some \<lparr>groupdict = [], whole = str ''rSf:  '' @ [newline]\<rparr> \<and>
   \<not> isnot_start_pattern_match (cp CHR ''R'' # 0x017F # cp CHR ''f'' # cp CHR '':'' # str ''x'') \<and>
   isnot_start_pattern_match (str '' rsf:'')"
proof -
  have s: "spec_start_marker_line (str ''rSf:  '' @ [newline])"
    by code_simp
  have m: "re_match START_PATTERN (str ''rSf:  '' @ [newline]) =
     Some \<lparr>groupdict = [], whole = str ''rSf:  '' @ [newline]\<rparr>"
    by code_simp
  have u: "\<exists>c1 c2 c3 rest.
      cp CHR ''R'' # 0x017F # cp CHR ''f'' # cp CHR '':'' # str ''x'' =
        c1 # c2 # c3 # cp CHR '':'' # rest \<and>
      (c1 = cp CHR ''r'' \<or> c1 = cp CHR ''R'') \<and>
      (c2 = cp CHR ''s'' \<or> c2 = cp CHR ''S'' \<or> c2 = 0x017F) \<and>
      (c3 = cp CHR ''f'' \<or> c3 = cp CHR ''F'')"
    by simp
  have n: "\<not> (\<exists>c1 c2 c3 rest. str '' rsf:'' = c1 # c2 # c3 # cp CHR '':'' # rest \<and>
      (c1 = cp CHR ''r'' \<or> c1 = cp CHR ''R'') \<and>
      (c2 = cp CHR ''s'' \<or> c2 = cp CHR ''S'' \<or> c2 = 0x017F) \<and>
      (c3 = cp CHR ''f'' \<or> c3 = cp CHR ''F''))"
    by simp
  from start_marker_is_prefix_match[of "str ''rSf:  '' @ [newline]"
      "\<lparr>groupdict = [], whole = str ''rSf:  '' @ [newline]\<rparr>"] s m
  have a: "spec_start_marker_line (str ''rSf:  '' @ [newline]) \<and>
     \<not> isnot_start_pattern_match (str ''rSf:  '' @ [newline]) \<and>
     re_match START_PATTERN (str ''rSf:  '' @ [newline]) =
       Some \<lparr>groupdict = [], whole = str ''rSf:  '' @ [newline]\<rparr>"
    by blast
  from start_marker_is_prefix_match[of
      "cp CHR ''R'' # 0x017F # cp CHR ''f'' # cp CHR '':'' # str ''x''"] u
  have b: "\<not> isnot_start_pattern_match
      (cp CHR ''R'' # 0x017F # cp CHR ''f'' # cp CHR '':'' # str ''x'')"
    by blast
  from start_marker_is_prefix_match[of "str '' rsf:''"] n
  have c: "isnot_start_pattern_match (str '' rsf:'')"
    by blast
  from a b c show ?thesis by blast
qed

text \<open>
  The claim as it is stated fails: a line with text after the marker is accepted.
\<close>

theorem start_marker_whole_line_counterexample:
  "\<not> isnot_start_pattern_match (str ''rsf: see the notes below'') \<and>
   \<not> spec_start_marker_line (str ''rsf: see the notes below'')"
  by code_simp

section \<open>The date entry: what is accepted and what is captured\<close>

lemma flag_chars [simp]:
  "\<not> is_digit (cp CHR ''x'')" "\<not> is_digit (cp CHR ''X'')"
  "\<not> is_space (cp CHR ''x'')" "\<not> is_space (cp CHR ''X'')"
  by code_simp+

lemma date_token_hd: "date_token d \<Longrightarrow> d \<noteq> [] \<and> is_digit (hd d)"
  by (auto simp: date_token_iff)

lemma takeWhile_append_stop:
  assumes "\<forall>x\<in>set A. P x" "B \<noteq> []" "\<not> P (hd B)"
  shows "takeWhile P (A @ B @ C) = A"
proof -
  have "takeWhile P (B @ C) = []"
    using assms(2,3) by (cases B) simp_all
  with assms(1) show ?thesis
    by (simp add: takeWhile_append2)
qed

lemma date_entry_unique:
  assumes eq: "ws1 @ fl @ ws2 @ d @ rest = ws1' @ fl' @ ws2' @ d' @ rest'"
    and a: "list_all is_space ws1" "fl = [] \<or> fl = str ''x'' \<or> fl = str ''X''" "list_all is_space ws2"
      "date_token d"
    and b: "list_all is_space ws1'" "fl' = [] \<or> fl' = str ''x'' \<or> fl' = str ''X''"
      "list_all is_space ws2'" "date_token d'"
  shows "fl = fl' \<and> d = d'"
proof -
  let ?P = "\<lambda>c. \<not> is_digit c"
  have A: "\<forall>c\<in>set (ws1 @ fl @ ws2). ?P c"
    using a by (auto simp: list_all_iff space_not_digit)
  have B: "\<forall>c\<in>set (ws1' @ fl' @ ws2'). ?P c"
    using b by (auto simp: list_all_iff space_not_digit)
  have "takeWhile ?P ((ws1 @ fl @ ws2) @ d @ rest) = ws1 @ fl @ ws2"
    using A date_token_hd[OF a(4)] by (intro takeWhile_append_stop) auto
  moreover have "takeWhile ?P ((ws1' @ fl' @ ws2') @ d' @ rest') = ws1' @ fl' @ ws2'"
    using B date_token_hd[OF b(4)] by (intro takeWhile_append_stop) auto
  ultimately have pre: "ws1 @ fl @ ws2 = ws1' @ fl' @ ws2'"
    using eq by simp
  with eq have "d @ rest = d' @ rest'"
    by (metis append.assoc same_append_eq)
  then have "d = d'"
    using date_token_length[OF a(4)] date_token_length[OF b(4)] by (simp add: append_eq_append_conv)
  moreover have "filter (\<lambda>c. \<not> is_space c) (ws1 @ fl @ ws2) = fl"
    using a by (auto simp: list_all_iff filter_empty_conv)
  moreover have "filter (\<lambda>c. \<not> is_space c) (ws1' @ fl' @ ws2') = fl'"
    using b by (auto simp: list_all_iff filter_empty_conv)
  ultimately show ?thesis
    using pre by metis
qed



lemma is_date_pattern_match_ends:
  "is_date_pattern_match line \<longleftrightarrow> (\<exists>g p s. ends DATE_PATTERN ([], 0, line) (g, p, s))"
  unfolding is_date_pattern_match_def re_match_None_iff by simp

lemma date_match_D:
  assumes "is_date_pattern_match line"
  shows "\<exists>b ws1 fl ws2 d rest. line = b # ws1 @ fl @ ws2 @ d @ rest \<and>
        (b = cp CHR ''-'' \<or> b = cp CHR ''*'') \<and> list_all is_space ws1 \<and>
        (fl = [] \<or> fl = str ''x'' \<or> fl = str ''X'') \<and> list_all is_space ws2 \<and> date_token d"
proof -
  from assms obtain g p s where e: "ends DATE_PATTERN ([], 0, line) (g, p, s)"
    unfolding is_date_pattern_match_ends by blast
  from ends_DATE_PATTERN_D[OF e] show ?thesis
  proof (rule disjE)
    assume "\<exists>b ws1 c ws2 d rest. line = b # ws1 @ c # ws2 @ d @ rest \<and>
        (b = cp CHR ''-'' \<or> b = cp CHR ''*'') \<and> list_all is_space ws1 \<and>
        (c = cp CHR ''x'' \<or> c = cp CHR ''X'') \<and> list_all is_space ws2 \<and> date_token d \<and>
        g = [(''date'', d), (''completed'', [c])]"
    then obtain b ws1 c ws2 d rest where f: "line = b # ws1 @ c # ws2 @ d @ rest"
      "b = cp CHR ''-'' \<or> b = cp CHR ''*''" "list_all is_space ws1" "c = cp CHR ''x'' \<or> c = cp CHR ''X''"
      "list_all is_space ws2" "date_token d"
      by blast
    have "line = b # ws1 @ [c] @ ws2 @ d @ rest" using f(1) by simp
    moreover have "[c] = [] \<or> [c] = str ''x'' \<or> [c] = str ''X''" using f(4) by simp
    ultimately show ?thesis using f(2,3,5,6) by blast
  next
    assume "\<exists>b ws1 ws2 d rest. line = b # ws1 @ ws2 @ d @ rest \<and>
        (b = cp CHR ''-'' \<or> b = cp CHR ''*'') \<and> list_all is_space ws1 \<and>
        list_all is_space ws2 \<and> date_token d \<and> g = [(''date'', d)]"
    then obtain b ws1 ws2 d rest where f: "line = b # ws1 @ ws2 @ d @ rest"
      "b = cp CHR ''-'' \<or> b = cp CHR ''*''" "list_all is_space ws1"
      "list_all is_space ws2" "date_token d"
      by blast
    have "line = b # ws1 @ [] @ ws2 @ d @ rest" using f(1) by simp
    moreover have "([]::str) = [] \<or> [] = str ''x'' \<or> [] = str ''X''" by simp
    ultimately show ?thesis using f(2,3,4,5) by blast
  qed
qed


lemma date_match_ends_I:
  assumes l: "line = b # ws1 @ fl @ ws2 @ d @ rest"
    and c: "b = cp CHR ''-'' \<or> b = cp CHR ''*''" "list_all is_space ws1"
      "fl = [] \<or> fl = str ''x'' \<or> fl = str ''X''" "list_all is_space ws2" "date_token d"
  shows "\<exists>p. ends DATE_PATTERN ([], 0, line)
           ((''date'', d) # (if fl = [] then [] else [(''completed'', fl)]), p, rest)"
proof -
  from c(3) consider "fl = []" | "fl = [cp CHR ''x'']" | "fl = [cp CHR ''X'']"
    by auto
  then show ?thesis
  proof cases
    case 1
    have "line = b # ws1 @ ws2 @ d @ rest" using l 1 by simp
    from ends_DATE_PATTERN_noflag[OF c(1,2,4,5), of rest, folded this] 1
    show ?thesis by auto
  next
    case 2
    have e: "line = b # ws1 @ cp CHR ''x'' # ws2 @ d @ rest" using l 2 by simp
    have "cp CHR ''x'' = cp CHR ''x'' \<or> cp CHR ''x'' = cp CHR ''X''" by simp
    from ends_DATE_PATTERN_flag[OF c(1,2) this c(4,5), of rest, folded e] 2
    show ?thesis by auto
  next
    case 3
    have e: "line = b # ws1 @ cp CHR ''X'' # ws2 @ d @ rest" using l 3 by simp
    have "cp CHR ''X'' = cp CHR ''x'' \<or> cp CHR ''X'' = cp CHR ''X''" by simp
    from ends_DATE_PATTERN_flag[OF c(1,2) this c(4,5), of rest, folded e] 3
    show ?thesis by auto
  qed
qed

lemma date_match_iff:
  "is_date_pattern_match line \<longleftrightarrow>
     (\<exists>b ws1 fl ws2 d rest. line = b # ws1 @ fl @ ws2 @ d @ rest \<and>
        (b = cp CHR ''-'' \<or> b = cp CHR ''*'') \<and> list_all is_space ws1 \<and>
        (fl = [] \<or> fl = str ''x'' \<or> fl = str ''X'') \<and> list_all is_space ws2 \<and> date_token d)"
proof
  assume "is_date_pattern_match line"
  then show "\<exists>b ws1 fl ws2 d rest. line = b # ws1 @ fl @ ws2 @ d @ rest \<and>
        (b = cp CHR ''-'' \<or> b = cp CHR ''*'') \<and> list_all is_space ws1 \<and>
        (fl = [] \<or> fl = str ''x'' \<or> fl = str ''X'') \<and> list_all is_space ws2 \<and> date_token d"
    by (rule date_match_D)
next
  assume "\<exists>b ws1 fl ws2 d rest. line = b # ws1 @ fl @ ws2 @ d @ rest \<and>
        (b = cp CHR ''-'' \<or> b = cp CHR ''*'') \<and> list_all is_space ws1 \<and>
        (fl = [] \<or> fl = str ''x'' \<or> fl = str ''X'') \<and> list_all is_space ws2 \<and> date_token d"
  then obtain b ws1 fl ws2 d rest where l: "line = b # ws1 @ fl @ ws2 @ d @ rest"
    and c: "b = cp CHR ''-'' \<or> b = cp CHR ''*''" "list_all is_space ws1"
      "fl = [] \<or> fl = str ''x'' \<or> fl = str ''X''" "list_all is_space ws2" "date_token d"
    by blast
  from date_match_ends_I[OF l c] show "is_date_pattern_match line"
    unfolding is_date_pattern_match_ends by blast
qed


lemma date_match_groupdict:
  assumes l: "line = b # ws1 @ fl @ ws2 @ d @ rest"
    and c: "list_all is_space ws1" "fl = [] \<or> fl = str ''x'' \<or> fl = str ''X''"
      "list_all is_space ws2" "date_token d"
    and e: "ends DATE_PATTERN ([], 0, line) (g, p, s)"
  shows "g = (''date'', d) # (if fl = [] then [] else [(''completed'', fl)])"
proof -
  from ends_DATE_PATTERN_D[OF e] show ?thesis
  proof (rule disjE)
    assume "\<exists>b ws1 c ws2 d rest. line = b # ws1 @ c # ws2 @ d @ rest \<and>
        (b = cp CHR ''-'' \<or> b = cp CHR ''*'') \<and> list_all is_space ws1 \<and>
        (c = cp CHR ''x'' \<or> c = cp CHR ''X'') \<and> list_all is_space ws2 \<and> date_token d \<and>
        g = [(''date'', d), (''completed'', [c])]"
    then obtain b' ws1' c' ws2' d' rest' where f: "line = b' # ws1' @ c' # ws2' @ d' @ rest'"
      "list_all is_space ws1'" "c' = cp CHR ''x'' \<or> c' = cp CHR ''X''" "list_all is_space ws2'"
      "date_token d'" "g = [(''date'', d'), (''completed'', [c'])]"
      by blast
    have eq: "ws1 @ fl @ ws2 @ d @ rest = ws1' @ [c'] @ ws2' @ d' @ rest'"
      using l f(1) by simp
    have fl': "[c'] = [] \<or> [c'] = str ''x'' \<or> [c'] = str ''X''"
      using f(3) by simp
    from date_entry_unique[OF eq c f(2) fl' f(4,5)]
    have "fl = [c']" "d = d'" by simp_all
    with f(6) show ?thesis by simp
  next
    assume "\<exists>b ws1 ws2 d rest. line = b # ws1 @ ws2 @ d @ rest \<and>
        (b = cp CHR ''-'' \<or> b = cp CHR ''*'') \<and> list_all is_space ws1 \<and>
        list_all is_space ws2 \<and> date_token d \<and> g = [(''date'', d)]"
    then obtain b' ws1' ws2' d' rest' where f: "line = b' # ws1' @ ws2' @ d' @ rest'"
      "list_all is_space ws1'" "list_all is_space ws2'" "date_token d'" "g = [(''date'', d')]"
      by blast
    have eq: "ws1 @ fl @ ws2 @ d @ rest = ws1' @ [] @ ws2' @ d' @ rest'"
      using l f(1) by simp
    have fl': "([]::str) = [] \<or> [] = str ''x'' \<or> [] = str ''X''"
      by simp
    from date_entry_unique[OF eq c f(2) fl' f(3,4)]
    have "fl = []" "d = d'" by simp_all
    with f(5) show ?thesis by simp
  qed
qed

lemma date_match_groups:
  assumes l: "line = b # ws1 @ fl @ ws2 @ d @ rest"
    and c: "b = cp CHR ''-'' \<or> b = cp CHR ''*''" "list_all is_space ws1"
      "fl = [] \<or> fl = str ''x'' \<or> fl = str ''X''" "list_all is_space ws2" "date_token d"
  shows "\<exists>m. re_match DATE_PATTERN line = Some m \<and>
           group m ''completed'' = (if fl = [] then None else Some fl) \<and>
           group m ''date'' = Some d"
proof -
  have "is_date_pattern_match line"
    using date_match_ends_I[OF l c] unfolding is_date_pattern_match_ends by blast
  then obtain m where m: "re_match DATE_PATTERN line = Some m"
    unfolding is_date_pattern_match_def by blast
  from re_match_Some_ends[OF m] obtain p s where
    e: "ends DATE_PATTERN ([], 0, line) (groupdict m, p, s)"
    by blast
  have "groupdict m = (''date'', d) # (if fl = [] then [] else [(''completed'', fl)])"
    by (rule date_match_groupdict[OF l c(2,3,4,5) e])
  then have "group m ''completed'' = (if fl = [] then None else Some fl) \<and>
      group m ''date'' = Some d"
    by (simp add: group_def)
  with m show ?thesis by blast
qed

text \<open>
  C4, as the code has it. The date-entry matcher accepts exactly the lines that begin, with
  no white space before it, with a bullet \<^verbatim>\<open>-\<close> or \<^verbatim>\<open>*\<close>, then optional white space, an
  optional single \<^verbatim>\<open>x\<close> or \<^verbatim>\<open>X\<close>, optional white space and a date token of the form
  YYYY-MM-DD; anything may follow the token. White space and digits are those of \<^verbatim>\<open>\s\<close>
  and \<^verbatim>\<open>\d\<close> on a \<^verbatim>\<open>str\<close>: the white space and the decimal digits of Unicode. For every
  such line the match has the two captures: the completion flag, absent or the flag
  character, and the date token of exactly ten characters.
\<close>

theorem date_entry_is_prefix_match:
  "(is_date_pattern_match line \<longleftrightarrow>
      (\<exists>b ws1 fl ws2 d rest. line = b # ws1 @ fl @ ws2 @ d @ rest \<and>
        (b = cp CHR ''-'' \<or> b = cp CHR ''*'') \<and> list_all is_space ws1 \<and>
        (fl = [] \<or> fl = str ''x'' \<or> fl = str ''X'') \<and> list_all is_space ws2 \<and> date_token d)) \<and>
   (line = b # ws1 @ fl @ ws2 @ d @ rest \<and>
      (b = cp CHR ''-'' \<or> b = cp CHR ''*'') \<and> list_all is_space ws1 \<and>
      (fl = [] \<or> fl = str ''x'' \<or> fl = str ''X'') \<and> list_all is_space ws2 \<and> date_token d \<longrightarrow>
      (\<exists>m. re_match DATE_PATTERN line = Some m \<and>
           group m ''completed'' = (if fl = [] then None else Some fl) \<and>
           group m ''date'' = Some d \<and> length d = 10))"
proof (intro conjI impI)
  show "is_date_pattern_match line \<longleftrightarrow>
      (\<exists>b ws1 fl ws2 d rest. line = b # ws1 @ fl @ ws2 @ d @ rest \<and>
        (b = cp CHR ''-'' \<or> b = cp CHR ''*'') \<and> list_all is_space ws1 \<and>
        (fl = [] \<or> fl = str ''x'' \<or> fl = str ''X'') \<and> list_all is_space ws2 \<and> date_token d)"
    by (rule date_match_iff)
next
  assume a: "line = b # ws1 @ fl @ ws2 @ d @ rest \<and>
      (b = cp CHR ''-'' \<or> b = cp CHR ''*'') \<and> list_all is_space ws1 \<and>
      (fl = [] \<or> fl = str ''x'' \<or> fl = str ''X'') \<and> list_all is_space ws2 \<and> date_token d"
  then have l: "line = b # ws1 @ fl @ ws2 @ d @ rest"
    and c: "b = cp CHR ''-'' \<or> b = cp CHR ''*''" "list_all is_space ws1"
      "fl = [] \<or> fl = str ''x'' \<or> fl = str ''X''" "list_all is_space ws2" "date_token d"
    by simp_all
  from date_match_groups[OF l c] date_token_length[OF c(5)]
  show "\<exists>m. re_match DATE_PATTERN line = Some m \<and>
           group m ''completed'' = (if fl = [] then None else Some fl) \<and>
           group m ''date'' = Some d \<and> length d = 10"
    by blast
qed

theorem date_entry_is_prefix_match_witness:
  "is_date_pattern_match (str ''*  x2021-11-11   and more'') \<and>
   (\<exists>m. re_match DATE_PATTERN (str ''*  x2021-11-11   and more'') = Some m \<and>
        group m ''completed'' = Some (str ''x'') \<and> group m ''date'' = Some (str ''2021-11-11'')) \<and>
   re_match DATE_PATTERN (str ''*  x2021-11-11   and more'') =
     Some \<lparr>groupdict = [(''date'', str ''2021-11-11''), (''completed'', str ''x'')],
           whole = str ''*  x2021-11-11   ''\<rparr> \<and>
   (\<exists>m. re_match DATE_PATTERN
          (cp CHR ''-'' # 0x2003 #
             [0x0662, 0x0660, 0x0662, 0x0662, cp CHR ''-'', 0x0660, 0x0663, cp CHR ''-'',
              0x0661, 0x0660]) = Some m \<and>
        group m ''completed'' = None \<and>
        group m ''date'' =
          Some [0x0662, 0x0660, 0x0662, 0x0662, cp CHR ''-'', 0x0660, 0x0663, cp CHR ''-'',
                0x0661, 0x0660])"
proof -
  let ?u = "[0x0662, 0x0660, 0x0662, 0x0662, cp CHR ''-'', 0x0660, 0x0663, cp CHR ''-'',
             0x0661, 0x0660] :: str"
  have pre: "str ''*  x2021-11-11   and more'' =
        cp CHR ''*'' # str ''  '' @ str ''x'' @ [] @ str ''2021-11-11'' @ str ''   and more'' \<and>
      (cp CHR ''*'' = cp CHR ''-'' \<or> cp CHR ''*'' = cp CHR ''*'') \<and> list_all is_space (str ''  '') \<and>
      (str ''x'' = [] \<or> str ''x'' = str ''x'' \<or> str ''x'' = str ''X'') \<and> list_all is_space [] \<and>
      date_token (str ''2021-11-11'')"
    by code_simp
  have pre_u: "cp CHR ''-'' # 0x2003 # ?u = cp CHR ''-'' # [0x2003] @ [] @ [] @ ?u @ [] \<and>
      (cp CHR ''-'' = cp CHR ''-'' \<or> cp CHR ''-'' = cp CHR ''*'') \<and> list_all is_space [0x2003] \<and>
      (([]::str) = [] \<or> [] = str ''x'' \<or> [] = str ''X'') \<and> list_all is_space [] \<and>
      date_token ?u"
    by code_simp
  have ev: "re_match DATE_PATTERN (str ''*  x2021-11-11   and more'') =
     Some \<lparr>groupdict = [(''date'', str ''2021-11-11''), (''completed'', str ''x'')],
           whole = str ''*  x2021-11-11   ''\<rparr>"
    by code_simp
  note T = date_entry_is_prefix_match[of "str ''*  x2021-11-11   and more''" "cp CHR ''*''"
      "str ''  ''" "str ''x''" "[]" "str ''2021-11-11''" "str ''   and more''"]
  note U = date_entry_is_prefix_match[of "cp CHR ''-'' # 0x2003 # ?u" "cp CHR ''-''"
      "[0x2003]" "[]" "[]" ?u "[]"]
  from T pre have a: "\<exists>m. re_match DATE_PATTERN (str ''*  x2021-11-11   and more'') = Some m \<and>
        group m ''completed'' = (if str ''x'' = [] then None else Some (str ''x'')) \<and>
        group m ''date'' = Some (str ''2021-11-11'') \<and> length (str ''2021-11-11'') = 10"
    by blast
  from T pre have b: "is_date_pattern_match (str ''*  x2021-11-11   and more'')"
    by blast
  from a have a': "\<exists>m. re_match DATE_PATTERN (str ''*  x2021-11-11   and more'') = Some m \<and>
        group m ''completed'' = Some (str ''x'') \<and> group m ''date'' = Some (str ''2021-11-11'')"
    by simp
  from U pre_u have "\<exists>m. re_match DATE_PATTERN (cp CHR ''-'' # 0x2003 # ?u) = Some m \<and>
        group m ''completed'' = (if ([]::str) = [] then None else Some []) \<and>
        group m ''date'' = Some ?u \<and> length ?u = 10"
    by blast
  then have c: "\<exists>m. re_match DATE_PATTERN (cp CHR ''-'' # 0x2003 # ?u) = Some m \<and>
        group m ''completed'' = None \<and> group m ''date'' = Some ?u"
    by simp
  from a' b c ev show ?thesis by blast
qed

text \<open>
  The claim as it is stated fails in both directions: a bullet after leading white space is
  rejected, and a line with text after the date is accepted.
\<close>

theorem date_entry_whole_line_counterexample:
  "spec_date_entry_line (str '' - 2022-03-10'') \<and> \<not> is_date_pattern_match (str '' - 2022-03-10'') \<and>
   is_date_pattern_match (str ''- 2022-03-10 and more'') \<and>
   \<not> spec_date_entry_line (str ''- 2022-03-10 and more'')"
  by code_simp

section \<open>DueDate.from_datestr and the errors it lets escape\<close>

lemma fromisoformat_error: "fromisoformat s = Inl e \<Longrightarrow> e = ValueError"
  by (induction s rule: fromisoformat.induct) (auto simp: date_new_def split: if_splits)

lemma re_match_date_truthy:
  assumes "re_match DATE_PATTERN line = Some m"
  shows "truthy (group m ''date'')"
proof -
  from re_match_Some_ends[OF assms] obtain p s where
    e: "ends DATE_PATTERN ([], 0, line) (groupdict m, p, s)"
    by blast
  then have "is_date_pattern_match line"
    unfolding is_date_pattern_match_ends by blast
  from date_match_D[OF this] obtain b ws1 fl ws2 d rest where
    l: "line = b # ws1 @ fl @ ws2 @ d @ rest" and c: "list_all is_space ws1"
      "fl = [] \<or> fl = str ''x'' \<or> fl = str ''X''" "list_all is_space ws2" "date_token d"
    by blast
  from date_match_groupdict[OF l c e] date_token_hd[OF c(4)]
  show ?thesis
    by (simp add: truthy_def group_def)
qed

lemma from_datestr_passes_date_token:
  assumes "re_match DATE_PATTERN line = Some m"
  shows "\<exists>d. group m ''date'' = Some d \<and> date_token d"
proof -
  from re_match_Some_ends[OF assms] obtain p s where
    e: "ends DATE_PATTERN ([], 0, line) (groupdict m, p, s)"
    by blast
  then have "is_date_pattern_match line"
    unfolding is_date_pattern_match_ends by blast
  from date_match_D[OF this] obtain b ws1 fl ws2 d rest where
    l: "line = b # ws1 @ fl @ ws2 @ d @ rest" and c: "list_all is_space ws1"
      "fl = [] \<or> fl = str ''x'' \<or> fl = str ''X''" "list_all is_space ws2" "date_token d"
    by blast
  from date_match_groupdict[OF l c e] c(4)
  show ?thesis
    by (simp add: group_def)
qed

lemma from_datestr_no_StringParsingError: "from_datestr line \<noteq> Inl (Rsf e)"
proof (cases "re_match DATE_PATTERN line")
  case None
  then show ?thesis by (simp add: from_datestr_def)
next
  case (Some m)
  from re_match_date_truthy[OF Some] fromisoformat_error[of "the (group m ''date'')"]
  show ?thesis
    by (auto simp: from_datestr_def Some Let_def split: sum.splits)
qed

text \<open>
  C3. The claim asks that a line that cannot be parsed fails with StringParsingError. The
  code does not: a date token that is no calendar date (month 13, 30 February) raises
  \<^verbatim>\<open>ValueError\<close> out of \<^verbatim>\<open>date.fromisoformat\<close>, a line that does not match the pattern
  raises \<^verbatim>\<open>AttributeError\<close> on \<^verbatim>\<open>m.group\<close>, and the one \<^verbatim>\<open>raise StringParsingError\<close> of
  the function is never reached, whatever the line.
\<close>
theorem from_datestr_errors_escape:
  "from_datestr (str ''- 2022-13-01'') = Inl ValueError \<and>
   from_datestr (str ''- x 2022-02-30'') = Inl ValueError \<and>
   from_datestr (str ''2022-07-18'') = Inl AttributeError \<and>
   from_datestr line \<noteq> Inl (Rsf (StringParsingError t))"
proof -
  have "from_datestr (str ''- 2022-13-01'') = Inl ValueError \<and>
   from_datestr (str ''- x 2022-02-30'') = Inl ValueError \<and>
   from_datestr (str ''2022-07-18'') = Inl AttributeError"
    by code_simp
  then show ?thesis
    using from_datestr_no_StringParsingError[of line "StringParsingError t"] by blast
qed

section \<open>Finding the dateblock\<close>

lemma strip_trailing_newline_date_line:
  assumes "is_date_pattern_match s"
  shows "strip_trailing_newline s = rstrip_newlines s"
proof -
  from date_match_D[OF assms] obtain b r where s: "s = b # r" "b = cp CHR ''-'' \<or> b = cp CHR ''*''"
    by blast
  then have "b \<noteq> newline"
    by (auto simp: newline_def)
  then show ?thesis
    by (simp add: strip_trailing_newline_def strip_def rstrip_newlines_def s(1))
qed

lemma takeWhile_run:
  assumes "list_all Q run" "rest = [] \<or> \<not> Q (hd rest)"
  shows "takeWhile Q (run @ rest) = run"
proof -
  have "takeWhile Q rest = []"
    using assms(2) by (cases rest) auto
  then show ?thesis
    using assms(1) by (simp add: takeWhile_append2 list_all_iff)
qed

lemma droptake_decomp:
  assumes "list_all P pre" "\<not> P marker" "list_all Q run" "rest = [] \<or> \<not> Q (hd rest)"
  shows "droptake P Q (pre @ marker # run @ rest) = run"
proof -
  have "dropWhile P (pre @ marker # run @ rest) = marker # run @ rest"
    using assms(1,2) by (simp add: dropWhile_append2 list_all_iff)
  then show ?thesis
    by (simp add: droptake_def takeWhile_run[OF assms(3,4)])
qed

lemma find_dateblock_decomp:
  assumes "list_all isnot_start_pattern_match pre" "\<not> isnot_start_pattern_match marker"
    "list_all is_date_pattern_match run" "rest = [] \<or> \<not> is_date_pattern_match (hd rest)"
  shows "find_dateblock (pre @ marker # run @ rest) =
           (if run = [] then Inl (Rsf DateblockNotFound) else Inr (map rstrip_newlines run))"
proof -
  have "map strip_trailing_newline run = map rstrip_newlines run"
    using assms(3) by (simp add: list_all_iff strip_trailing_newline_date_line)
  then show ?thesis
    by (simp add: find_dateblock_def droptake_decomp[OF assms])
qed

lemma find_dateblock_not_found_D:
  assumes "find_dateblock ls = Inl (Rsf DateblockNotFound)"
    and "\<not> list_all isnot_start_pattern_match ls"
  shows "\<exists>pre marker rest. ls = pre @ marker # rest \<and> list_all isnot_start_pattern_match pre \<and>
           \<not> isnot_start_pattern_match marker \<and>
           (rest = [] \<or> \<not> is_date_pattern_match (hd rest))"
proof -
  let ?P = isnot_start_pattern_match
  from assms(2) have ne: "dropWhile ?P ls \<noteq> []"
    by (simp add: list_all_iff)
  then obtain marker rest where d: "dropWhile ?P ls = marker # rest"
    by (cases "dropWhile ?P ls") auto
  have m: "\<not> ?P marker"
    using hd_dropWhile[OF ne] d by simp
  have ls: "ls = takeWhile ?P ls @ marker # rest"
    using takeWhile_dropWhile_id[of ?P ls] d by simp
  have pre: "list_all ?P (takeWhile ?P ls)"
    by (auto simp: list_all_iff dest: set_takeWhileD)
  have "takeWhile is_date_pattern_match rest = []"
    using assms(1) by (simp add: find_dateblock_def droptake_def d Let_def split: if_splits)
  then have "rest = [] \<or> \<not> is_date_pattern_match (hd rest)"
    by (cases rest) (auto split: if_splits)
  with ls pre m show ?thesis by blast
qed

lemma find_dateblock_error: "find_dateblock ls = Inl e \<Longrightarrow> e = Rsf DateblockNotFound"
  by (auto simp: find_dateblock_def Let_def split: if_splits)

text \<open>
  C2. \<^verbatim>\<open>find_dateblock\<close> drops every line up to and including the first that matches the
  start marker, collects the run of the lines after it that match the date entry, up to
  the first line that does not (lines after that one are never collected, whatever their
  shape), and returns the run with the newlines at the end of each line removed and
  nothing else. It fails with DateblockNotFound exactly when no line matches the marker or
  the line after the marker does not match the date entry (or there is none); it raises
  nothing else.
\<close>
theorem find_dateblock_run:
  "(list_all isnot_start_pattern_match ls \<longrightarrow> find_dateblock ls = Inl (Rsf DateblockNotFound)) \<and>
   (list_all isnot_start_pattern_match pre \<and> \<not> isnot_start_pattern_match marker \<and>
    list_all is_date_pattern_match run \<and> (rest = [] \<or> \<not> is_date_pattern_match (hd rest)) \<longrightarrow>
      find_dateblock (pre @ marker # run @ rest) =
        (if run = [] then Inl (Rsf DateblockNotFound) else Inr (map rstrip_newlines run))) \<and>
   (find_dateblock ls = Inl (Rsf DateblockNotFound) \<longleftrightarrow>
      list_all isnot_start_pattern_match ls \<or>
      (\<exists>pre marker rest. ls = pre @ marker # rest \<and> list_all isnot_start_pattern_match pre \<and>
         \<not> isnot_start_pattern_match marker \<and>
         (rest = [] \<or> \<not> is_date_pattern_match (hd rest)))) \<and>
   (find_dateblock ls = Inl e \<longrightarrow> e = Rsf DateblockNotFound)"
proof (intro conjI impI)
  assume "list_all isnot_start_pattern_match ls"
  then show "find_dateblock ls = Inl (Rsf DateblockNotFound)"
    by (rule find_dateblock_no_marker)
next
  assume "list_all isnot_start_pattern_match pre \<and> \<not> isnot_start_pattern_match marker \<and>
    list_all is_date_pattern_match run \<and> (rest = [] \<or> \<not> is_date_pattern_match (hd rest))"
  then show "find_dateblock (pre @ marker # run @ rest) =
        (if run = [] then Inl (Rsf DateblockNotFound) else Inr (map rstrip_newlines run))"
    using find_dateblock_decomp[of pre marker run rest] by blast
next
  show "find_dateblock ls = Inl (Rsf DateblockNotFound) \<longleftrightarrow>
      list_all isnot_start_pattern_match ls \<or>
      (\<exists>pre marker rest. ls = pre @ marker # rest \<and> list_all isnot_start_pattern_match pre \<and>
         \<not> isnot_start_pattern_match marker \<and>
         (rest = [] \<or> \<not> is_date_pattern_match (hd rest)))"
    (is "?L \<longleftrightarrow> ?A \<or> ?B")
  proof
    assume ?L
    then show "?A \<or> ?B"
      using find_dateblock_not_found_D[of ls] by blast
  next
    assume "?A \<or> ?B"
    then show ?L
    proof
      assume ?A
      then show ?L by (rule find_dateblock_no_marker)
    next
      assume ?B
      then obtain pre marker rest where b: "ls = pre @ marker # rest"
        "list_all isnot_start_pattern_match pre" "\<not> isnot_start_pattern_match marker"
        "rest = [] \<or> \<not> is_date_pattern_match (hd rest)"
        by blast
      have "list_all is_date_pattern_match []" by simp
      from find_dateblock_decomp[OF b(2,3) this b(4)] show ?L
        by (simp add: b(1))
    qed
  qed
next
  assume "find_dateblock ls = Inl e"
  then show "e = Rsf DateblockNotFound"
    by (rule find_dateblock_error)
qed

theorem find_dateblock_run_witness:
  "find_dateblock
     [str ''First line'' @ [newline], [newline], str ''rsf:'' @ [newline],
      str ''- x 2022-03-10'' @ [newline], str ''-  2022-03-15  '' @ [newline], [newline],
      str ''- 2022-04-01'' @ [newline], str ''End of document.''] =
     Inr [str ''- x 2022-03-10'', str ''-  2022-03-15  ''] \<and>
   find_dateblock [str ''First line'' @ [newline], str ''- 2022-03-15''] = Inl (Rsf DateblockNotFound) \<and>
   find_dateblock [str ''rsf:'' @ [newline], [newline], str ''- 2022-03-15''] = Inl (Rsf DateblockNotFound)"
proof -
  have pre: "list_all isnot_start_pattern_match [str ''First line'' @ [newline], [newline]] \<and>
      \<not> isnot_start_pattern_match (str ''rsf:'' @ [newline]) \<and>
      list_all is_date_pattern_match
        [str ''- x 2022-03-10'' @ [newline], str ''-  2022-03-15  '' @ [newline]] \<and>
      ([[newline], str ''- 2022-04-01'' @ [newline], str ''End of document.''] = [] \<or>
       \<not> is_date_pattern_match
           (hd [[newline], str ''- 2022-04-01'' @ [newline], str ''End of document.'']))"
    by code_simp
  have r: "map rstrip_newlines [str ''- x 2022-03-10'' @ [newline], str ''-  2022-03-15  '' @ [newline]] =
      [str ''- x 2022-03-10'', str ''-  2022-03-15  '']"
    by code_simp
  have pre2: "list_all isnot_start_pattern_match [str ''First line'' @ [newline], str ''- 2022-03-15'']"
    by code_simp
  have pre3: "list_all isnot_start_pattern_match [] \<and>
      \<not> isnot_start_pattern_match (str ''rsf:'' @ [newline]) \<and>
      list_all is_date_pattern_match [] \<and>
      ([[newline], str ''- 2022-03-15''] = [] \<or>
       \<not> is_date_pattern_match (hd [[newline], str ''- 2022-03-15'']))"
    by code_simp
  from find_dateblock_run[of "[str ''First line'' @ [newline], str ''- 2022-03-15'']"
      "[str ''First line'' @ [newline], [newline]]" "str ''rsf:'' @ [newline]"
      "[str ''- x 2022-03-10'' @ [newline], str ''-  2022-03-15  '' @ [newline]]"
      "[[newline], str ''- 2022-04-01'' @ [newline], str ''End of document.'']"] pre pre2
  have a: "find_dateblock ([str ''First line'' @ [newline], [newline]] @ (str ''rsf:'' @ [newline]) #
      [str ''- x 2022-03-10'' @ [newline], str ''-  2022-03-15  '' @ [newline]] @
      [[newline], str ''- 2022-04-01'' @ [newline], str ''End of document.'']) =
      (if [str ''- x 2022-03-10'' @ [newline], str ''-  2022-03-15  '' @ [newline]] = []
       then Inl (Rsf DateblockNotFound)
       else Inr (map rstrip_newlines
                  [str ''- x 2022-03-10'' @ [newline], str ''-  2022-03-15  '' @ [newline]]))"
    and b: "find_dateblock [str ''First line'' @ [newline], str ''- 2022-03-15''] =
      Inl (Rsf DateblockNotFound)"
    by blast+
  from find_dateblock_run[of "[]" "[]" "str ''rsf:'' @ [newline]" "[]"
      "[[newline], str ''- 2022-03-15'']"] pre3
  have c: "find_dateblock ([] @ (str ''rsf:'' @ [newline]) # [] @ [[newline], str ''- 2022-03-15'']) =
      (if ([]::str list) = [] then Inl (Rsf DateblockNotFound)
       else Inr (map rstrip_newlines []))"
    by blast
  from a b c show ?thesis
    unfolding r by simp
qed

section \<open>Selecting the due date\<close>

lemma scan_dates_filter:
  "scan_dates ds dr =
     (case filter (\<lambda>x. \<not> completed x \<and> contains dr (date x)) ds of
        [] \<Rightarrow> None
      | x # _ \<Rightarrow> Some (date x))"
  by (induction ds) auto

lemma make_date_range_ok:
  assumes "\<bar>overdue\<bar> \<le> 999999999" "\<bar>advance\<bar> \<le> 999999999"
    "1 \<le> toordinal ref - overdue" "toordinal ref - overdue \<le> MAXORDINAL"
    "1 \<le> toordinal ref + advance" "toordinal ref + advance \<le> MAXORDINAL"
  shows "make_date_range ref overdue advance =
           Inr \<lparr>earliest = fromordinal (toordinal ref - overdue),
                latest = fromordinal (toordinal ref + advance)\<rparr>"
  using assms by (simp add: make_date_range_def timedelta_def date_sub_def date_add_def)

lemma hd_sorted_Min:
  assumes "sorted (map f xs)" "xs \<noteq> []"
  shows "f (hd xs) = Min (f ` set xs)"
proof -
  obtain x ys where xs: "xs = x # ys"
    using assms(2) by (cases xs) auto
  have "\<forall>y\<in>set ys. f x \<le> f y"
    using assms(1) by (simp add: xs)
  then have "Min (insert (f x) (f ` set ys)) = f x"
    by (intro Min_eqI) auto
  then show ?thesis by (simp add: xs)
qed

lemma get_due_date_filter:
  assumes "make_date_range ref overdue advance = Inr \<lparr>earliest = e, latest = l\<rparr>"
  shows "get_due_date entries ref overdue advance =
     (case filter (\<lambda>x. \<not> completed x \<and> e \<le> date x \<and> date x \<le> l) (sort_key date entries) of
        [] \<Rightarrow> Inl (Rsf (NoDueDateFound (e, l) entries))
      | x # _ \<Rightarrow> Inr (date x))"
  by (simp add: get_due_date_def assms scan_dates_filter sorted_py_DueDate contains_def
      DateRange_tuple_def split: list.splits)

lemma filter_sort_key_Min:
  assumes "\<exists>x\<in>set entries. P x"
  shows "\<exists>x rest. filter P (sort_key f entries) = x # rest \<and>
           f x = Min (f ` {x \<in> set entries. P x})"
proof -
  let ?q = "filter P (sort_key f entries)"
  have ne: "?q \<noteq> []"
    using assms by (auto simp: filter_empty_conv)
  have "sorted (map f ?q)"
    by (simp add: sorted_filter)
  from hd_sorted_Min[OF this ne] have "f (hd ?q) = Min (f ` {x \<in> set entries. P x})"
    by simp
  with ne show ?thesis
    by (cases ?q) auto
qed

lemma get_due_date_in_range:
  assumes "\<bar>overdue\<bar> \<le> 999999999" "\<bar>advance\<bar> \<le> 999999999"
    "1 \<le> toordinal ref - overdue" "toordinal ref - overdue \<le> MAXORDINAL"
    "1 \<le> toordinal ref + advance" "toordinal ref + advance \<le> MAXORDINAL"
    and e_def: "e = fromordinal (toordinal ref - overdue)"
    and l_def: "l = fromordinal (toordinal ref + advance)"
    and due_def: "due = (\<lambda>x::DueDate. \<not> completed x \<and> e \<le> date x \<and> date x \<le> l)"
  shows "date_sub ref overdue = Inr e" "date_add ref advance = Inr l"
    "get_due_date entries ref overdue advance =
       (case filter due (sort_key date entries) of
          [] \<Rightarrow> Inl (Rsf (NoDueDateFound (e, l) entries))
        | x # _ \<Rightarrow> Inr (date x))"
    "(\<exists>x\<in>set entries. due x) \<Longrightarrow>
       get_due_date entries ref overdue advance = Inr (Min (date ` {x \<in> set entries. due x}))"
    "\<not> (\<exists>x\<in>set entries. due x) \<Longrightarrow>
       get_due_date entries ref overdue advance = Inl (Rsf (NoDueDateFound (e, l) entries))"
proof -
  have r: "make_date_range ref overdue advance = Inr \<lparr>earliest = e, latest = l\<rparr>"
    unfolding e_def l_def by (rule make_date_range_ok[OF assms(1-6)])
  show "date_sub ref overdue = Inr e" "date_add ref advance = Inr l"
    using assms(1-6) by (simp_all add: date_sub_def date_add_def e_def l_def)
  show g: "get_due_date entries ref overdue advance =
      (case filter due (sort_key date entries) of
         [] \<Rightarrow> Inl (Rsf (NoDueDateFound (e, l) entries))
       | x # _ \<Rightarrow> Inr (date x))"
    unfolding due_def by (rule get_due_date_filter[OF r])
  show "get_due_date entries ref overdue advance =
      Inr (Min (date ` {x \<in> set entries. due x}))" if "\<exists>x\<in>set entries. due x"
  proof -
    from filter_sort_key_Min[OF that, of date] obtain x rest where
      "filter due (sort_key date entries) = x # rest"
      "date x = Min (date ` {x \<in> set entries. due x})"
      by blast
    then show ?thesis by (simp add: g)
  qed
  show "get_due_date entries ref overdue advance =
      Inl (Rsf (NoDueDateFound (e, l) entries))" if "\<not> (\<exists>x\<in>set entries. due x)"
  proof -
    have "filter due (sort_key date entries) = []"
      using that by (auto simp: filter_empty_conv)
    then show ?thesis by (simp add: g)
  qed
qed

lemma get_due_date_overflow:
  assumes "\<not> (\<bar>overdue\<bar> \<le> 999999999 \<and> \<bar>advance\<bar> \<le> 999999999 \<and>
    1 \<le> toordinal ref - overdue \<and> toordinal ref - overdue \<le> MAXORDINAL \<and>
    1 \<le> toordinal ref + advance \<and> toordinal ref + advance \<le> MAXORDINAL)"
  shows "get_due_date entries ref overdue advance = Inl OverflowError"
proof -
  have "make_date_range ref overdue advance = Inl OverflowError"
    using assms
    by (auto simp: make_date_range_def timedelta_def date_sub_def date_add_def Let_def)
  then show ?thesis
    by (simp add: get_due_date_def)
qed

text \<open>
  C1, as the code has it. When the two ends of the range are dates that exist, that is when
  \<open>ref - overdue\<close> days and \<open>ref + advance\<close> days lie between 0001-01-01 and 9999-12-31
  (and the day counts are within the 999999999 days of a timedelta), of either sign,
  \<^verbatim>\<open>get_due_date\<close> computes the closed range from \<open>ref - overdue\<close> days to
  \<open>ref + advance\<close> days, sorts the entries by date and returns the date of the first
  entry in that order that is not completed and whose date lies in the range, both ends
  included: the earliest such date. When there is no such entry it fails with
  NoDueDateFound, which carries the range and the list of entries as it was given. When an
  end of the range is not a date that exists, it raises \<^verbatim>\<open>OverflowError\<close>, whatever the
  entries.
\<close>

theorem get_due_date_earliest_due:
  "let representable =
         (\<bar>overdue\<bar> \<le> 999999999 \<and> \<bar>advance\<bar> \<le> 999999999 \<and>
          1 \<le> toordinal ref - overdue \<and> toordinal ref - overdue \<le> MAXORDINAL \<and>
          1 \<le> toordinal ref + advance \<and> toordinal ref + advance \<le> MAXORDINAL);
       e = fromordinal (toordinal ref - overdue);
       l = fromordinal (toordinal ref + advance);
       due = (\<lambda>x. \<not> completed x \<and> e \<le> date x \<and> date x \<le> l)
   in (representable \<longrightarrow>
         date_sub ref overdue = Inr e \<and> date_add ref advance = Inr l \<and>
         get_due_date entries ref overdue advance =
           (case filter due (sort_key date entries) of
              [] \<Rightarrow> Inl (Rsf (NoDueDateFound (e, l) entries))
            | x # _ \<Rightarrow> Inr (date x)) \<and>
         ((\<exists>x\<in>set entries. due x) \<longrightarrow>
            get_due_date entries ref overdue advance =
              Inr (Min (date ` {x \<in> set entries. due x}))) \<and>
         (\<not> (\<exists>x\<in>set entries. due x) \<longrightarrow>
            get_due_date entries ref overdue advance =
              Inl (Rsf (NoDueDateFound (e, l) entries)))) \<and>
      (\<not> representable \<longrightarrow>
         get_due_date entries ref overdue advance = Inl OverflowError)"
  unfolding Let_def
proof (rule conjI; rule impI)
  let ?e = "fromordinal (toordinal ref - overdue)"
  let ?l = "fromordinal (toordinal ref + advance)"
  let ?due = "\<lambda>x::DueDate. \<not> completed x \<and> ?e \<le> date x \<and> date x \<le> ?l"
  assume "\<bar>overdue\<bar> \<le> 999999999 \<and> \<bar>advance\<bar> \<le> 999999999 \<and>
    1 \<le> toordinal ref - overdue \<and> toordinal ref - overdue \<le> MAXORDINAL \<and>
    1 \<le> toordinal ref + advance \<and> toordinal ref + advance \<le> MAXORDINAL"
  then have h: "\<bar>overdue\<bar> \<le> 999999999" "\<bar>advance\<bar> \<le> 999999999"
    "1 \<le> toordinal ref - overdue" "toordinal ref - overdue \<le> MAXORDINAL"
    "1 \<le> toordinal ref + advance" "toordinal ref + advance \<le> MAXORDINAL"
    by simp_all
  note R = get_due_date_in_range[OF h refl refl refl]
  show "date_sub ref overdue = Inr ?e \<and> date_add ref advance = Inr ?l \<and>
    get_due_date entries ref overdue advance =
      (case filter ?due (sort_key date entries) of
         [] \<Rightarrow> Inl (Rsf (NoDueDateFound (?e, ?l) entries))
       | x # _ \<Rightarrow> Inr (date x)) \<and>
    ((\<exists>x\<in>set entries. ?due x) \<longrightarrow>
       get_due_date entries ref overdue advance =
         Inr (Min (date ` {x \<in> set entries. ?due x}))) \<and>
    (\<not> (\<exists>x\<in>set entries. ?due x) \<longrightarrow>
       get_due_date entries ref overdue advance =
         Inl (Rsf (NoDueDateFound (?e, ?l) entries)))"
    apply (intro conjI impI)
        apply (rule R(1))
       apply (rule R(2))
      apply (rule R(3))
     apply (erule R(4))
    apply (erule R(5))
    done
next
  assume "\<not> (\<bar>overdue\<bar> \<le> 999999999 \<and> \<bar>advance\<bar> \<le> 999999999 \<and>
    1 \<le> toordinal ref - overdue \<and> toordinal ref - overdue \<le> MAXORDINAL \<and>
    1 \<le> toordinal ref + advance \<and> toordinal ref + advance \<le> MAXORDINAL)"
  then show "get_due_date entries ref overdue advance = Inl OverflowError"
    by (rule get_due_date_overflow)
qed

theorem get_due_date_earliest_due_witness:
  "get_due_date
     [\<lparr>date = Date 2022 3 20, completed = False\<rparr>, \<lparr>date = Date 2022 3 9, completed = True\<rparr>,
      \<lparr>date = Date 2022 3 11, completed = False\<rparr>, \<lparr>date = Date 2022 3 10, completed = False\<rparr>]
     (Date 2022 3 12) 3 9 = Inr (Date 2022 3 10) \<and>
   date_sub (Date 2022 3 12) 3 = Inr (Date 2022 3 9) \<and>
   date_add (Date 2022 3 12) 9 = Inr (Date 2022 3 21) \<and>
   get_due_date
     [\<lparr>date = Date 2022 3 20, completed = False\<rparr>, \<lparr>date = Date 2022 3 9, completed = True\<rparr>,
      \<lparr>date = Date 2022 3 11, completed = False\<rparr>, \<lparr>date = Date 2022 3 10, completed = False\<rparr>]
     (Date 9999 12 30) 3 9 = Inl OverflowError"
proof -
  let ?es = "[\<lparr>date = Date 2022 3 20, completed = False\<rparr>,
      \<lparr>date = Date 2022 3 9, completed = True\<rparr>,
      \<lparr>date = Date 2022 3 11, completed = False\<rparr>,
      \<lparr>date = Date 2022 3 10, completed = False\<rparr>]"
  have h: "\<bar>3::int\<bar> \<le> 999999999 \<and> \<bar>9::int\<bar> \<le> 999999999 \<and>
    1 \<le> toordinal (Date 2022 3 12) - 3 \<and> toordinal (Date 2022 3 12) - 3 \<le> MAXORDINAL \<and>
    1 \<le> toordinal (Date 2022 3 12) + 9 \<and> toordinal (Date 2022 3 12) + 9 \<le> MAXORDINAL"
    by code_simp
  have n: "\<not> (\<bar>3::int\<bar> \<le> 999999999 \<and> \<bar>9::int\<bar> \<le> 999999999 \<and>
    1 \<le> toordinal (Date 9999 12 30) - 3 \<and> toordinal (Date 9999 12 30) - 3 \<le> MAXORDINAL \<and>
    1 \<le> toordinal (Date 9999 12 30) + 9 \<and> toordinal (Date 9999 12 30) + 9 \<le> MAXORDINAL)"
    by code_simp
  have ev: "fromordinal (toordinal (Date 2022 3 12) - 3) = Date 2022 3 9"
    "fromordinal (toordinal (Date 2022 3 12) + 9) = Date 2022 3 21"
    by code_simp+
  have f: "filter (\<lambda>x. \<not> completed x \<and> Date 2022 3 9 \<le> date x \<and> date x \<le> Date 2022 3 21)
      (sort_key date ?es) =
      [\<lparr>date = Date 2022 3 10, completed = False\<rparr>, \<lparr>date = Date 2022 3 11, completed = False\<rparr>,
       \<lparr>date = Date 2022 3 20, completed = False\<rparr>]"
    by code_simp
  note T = get_due_date_earliest_due[where entries = ?es and ref = "Date 2022 3 12"
      and overdue = 3 and advance = 9, unfolded Let_def ev]
  note N = get_due_date_earliest_due[where entries = ?es and ref = "Date 9999 12 30"
      and overdue = 3 and advance = 9, unfolded Let_def]
  from T h have a: "date_sub (Date 2022 3 12) 3 = Inr (Date 2022 3 9)"
    and b: "date_add (Date 2022 3 12) 9 = Inr (Date 2022 3 21)"
    and c: "get_due_date ?es (Date 2022 3 12) 3 9 =
      (case filter (\<lambda>x. \<not> completed x \<and> Date 2022 3 9 \<le> date x \<and> date x \<le> Date 2022 3 21)
              (sort_key date ?es) of
         [] \<Rightarrow> Inl (Rsf (NoDueDateFound (Date 2022 3 9, Date 2022 3 21) ?es))
       | x # _ \<Rightarrow> Inr (date x))"
    by blast+
  from c have c': "get_due_date ?es (Date 2022 3 12) 3 9 = Inr (Date 2022 3 10)"
    unfolding f by simp
  from N n have d: "get_due_date ?es (Date 9999 12 30) 3 9 = Inl OverflowError"
    by blast
  from a b c' d show ?thesis by blast
qed

text \<open>
  The claim as it is stated, for all integers, fails: a range that runs out of the dates
  raises \<^verbatim>\<open>OverflowError\<close>, which is neither a date nor NoDueDateFound.
\<close>

theorem get_due_date_overflow_counterexample:
  "get_due_date [] (Date 2022 3 12) 1000000 0 = Inl OverflowError"
  by code_simp

text \<open>
  C10. \<^verbatim>\<open>get_due_date\<close> does not change the list it is given: whatever it returns or
  raises, every list that was in the store is as it was, the list \<open>dateblock\<close> among them
  (the sorted list is a new object), and the NoDueDateFound it raises refers to
  \<open>dateblock\<close> itself, the list in its original order. Its result is the one of the
  function over values.
\<close>
theorem get_due_date_leaves_the_list:
  assumes "dateblock < length st"
  shows "case get_due_date_st st dateblock reference overdue advance of
           (res, st') \<Rightarrow>
             take (length st) st' = st \<and> st' ! dateblock = st ! dateblock \<and>
             (case res of
                Inr d \<Rightarrow> get_due_date (st ! dateblock) reference overdue advance = Inr d
              | Inl (NoDueDateFound_ref rng a) \<Rightarrow>
                  a = dateblock \<and>
                  get_due_date (st ! dateblock) reference overdue advance =
                    Inl (Rsf (NoDueDateFound rng (st' ! a)))
              | Inl (Other e) \<Rightarrow>
                  get_due_date (st ! dateblock) reference overdue advance = Inl e \<and> st' = st)"
  using assms
  by (auto simp: get_due_date_st_def get_due_date_def sorted_st_def nth_append Let_def
      split: sum.splits option.splits raised_st.splits)

theorem get_due_date_leaves_the_list_witness:
  "get_due_date_st
     [[\<lparr>date = Date 2022 3 20, completed = False\<rparr>, \<lparr>date = Date 2022 3 10, completed = False\<rparr>]]
     0 (Date 2022 3 12) 3 0 =
     (Inr (Date 2022 3 10),
      [[\<lparr>date = Date 2022 3 20, completed = False\<rparr>, \<lparr>date = Date 2022 3 10, completed = False\<rparr>],
       [\<lparr>date = Date 2022 3 10, completed = False\<rparr>, \<lparr>date = Date 2022 3 20, completed = False\<rparr>]]) \<and>
   get_due_date_st
     [[\<lparr>date = Date 2022 3 20, completed = False\<rparr>, \<lparr>date = Date 2022 3 1, completed = False\<rparr>]]
     0 (Date 2022 3 12) 3 0 =
     (Inl (NoDueDateFound_ref (Date 2022 3 9, Date 2022 3 12) 0),
      [[\<lparr>date = Date 2022 3 20, completed = False\<rparr>, \<lparr>date = Date 2022 3 1, completed = False\<rparr>],
       [\<lparr>date = Date 2022 3 1, completed = False\<rparr>, \<lparr>date = Date 2022 3 20, completed = False\<rparr>]]) \<and>
   get_due_date
     [\<lparr>date = Date 2022 3 20, completed = False\<rparr>, \<lparr>date = Date 2022 3 1, completed = False\<rparr>]
     (Date 2022 3 12) 3 0 =
     Inl (Rsf (NoDueDateFound (Date 2022 3 9, Date 2022 3 12)
       [\<lparr>date = Date 2022 3 20, completed = False\<rparr>, \<lparr>date = Date 2022 3 1, completed = False\<rparr>]))"
proof -
  have h: "(0::nat) < length
      [[\<lparr>date = Date 2022 3 20, completed = False\<rparr>, \<lparr>date = Date 2022 3 1, completed = False\<rparr>]]"
    by simp
  have a: "get_due_date_st
     [[\<lparr>date = Date 2022 3 20, completed = False\<rparr>, \<lparr>date = Date 2022 3 10, completed = False\<rparr>]]
     0 (Date 2022 3 12) 3 0 =
     (Inr (Date 2022 3 10),
      [[\<lparr>date = Date 2022 3 20, completed = False\<rparr>, \<lparr>date = Date 2022 3 10, completed = False\<rparr>],
       [\<lparr>date = Date 2022 3 10, completed = False\<rparr>, \<lparr>date = Date 2022 3 20, completed = False\<rparr>]])"
    by code_simp
  have b: "get_due_date_st
     [[\<lparr>date = Date 2022 3 20, completed = False\<rparr>, \<lparr>date = Date 2022 3 1, completed = False\<rparr>]]
     0 (Date 2022 3 12) 3 0 =
     (Inl (NoDueDateFound_ref (Date 2022 3 9, Date 2022 3 12) 0),
      [[\<lparr>date = Date 2022 3 20, completed = False\<rparr>, \<lparr>date = Date 2022 3 1, completed = False\<rparr>],
       [\<lparr>date = Date 2022 3 1, completed = False\<rparr>, \<lparr>date = Date 2022 3 20, completed = False\<rparr>]])"
    by code_simp
  from get_due_date_leaves_the_list[OF h, of "Date 2022 3 12" 3 0]
  have "get_due_date
     [\<lparr>date = Date 2022 3 20, completed = False\<rparr>, \<lparr>date = Date 2022 3 1, completed = False\<rparr>]
     (Date 2022 3 12) 3 0 =
     Inl (Rsf (NoDueDateFound (Date 2022 3 9, Date 2022 3 12)
       [\<lparr>date = Date 2022 3 20, completed = False\<rparr>, \<lparr>date = Date 2022 3 1, completed = False\<rparr>]))"
    unfolding b by simp
  with a b show ?thesis by blast
qed

section \<open>The result for one file\<close>










end
